theory Spec2Isabelle
  imports Complex_Main
begin

section \<open>The provider registry\<close>

text \<open>
  \<^verbatim>\<open>workers.js\<close> keeps its upstream resolvers in the module-level array
  \<^verbatim>\<open>DOH_PROVIDERS\<close>; every element is an object with a name, a url and a weight.
  The weights are integer literals. JavaScript numbers are doubles, and a double is a
  real number: the running value of the selection loop is modelled as a real. The loop
  compares it with an integer weight and subtracts the weight only when the value is not
  below it; on doubles below \<open>2 ^ 53\<close> both are exact.
\<close>

record provider =
  name :: string
  url :: string
  weight :: int

definition DOH_PROVIDERS :: "provider list" where
  "DOH_PROVIDERS =
    [\<lparr>name = ''Cloudflare'', url = ''https://cloudflare-dns.com/dns-query'', weight = 20\<rparr>,
     \<lparr>name = ''Google'', url = ''https://dns.google/dns-query'', weight = 15\<rparr>,
     \<lparr>name = ''Quad9'', url = ''https://dns.quad9.net/dns-query'', weight = 15\<rparr>,
     \<lparr>name = ''OpenDNS'', url = ''https://doh.opendns.com/dns-query'', weight = 10\<rparr>,
     \<lparr>name = ''AdGuard'', url = ''https://dns.adguard.com/dns-query'', weight = 10\<rparr>,
     \<lparr>name = ''ControlD'', url = ''https://freedns.controld.com/p2'', weight = 10\<rparr>,
     \<lparr>name = ''Mullvad'', url = ''https://adblock.dns.mullvad.net/dns-query'', weight = 10\<rparr>,
     \<lparr>name = ''NextDNS'', url = ''https://dns.nextdns.io/dns-query'', weight = 10\<rparr>]"

definition CACHE_TTL :: nat where
  "CACHE_TTL = 300"

section \<open>Weighted selection\<close>

text \<open>
  \<^verbatim>\<open>selectProvider(providers)\<close>: the total is a left fold from 0, the draw is
  \<^verbatim>\<open>Math.random() * totalWeight\<close>, and the loop returns the first provider whose
  weight is above the running value, subtracting the weight otherwise. The product is a
  double, rounded by the machine, and need not be the exact product of its factors: it
  is not computed here but taken from the argument \<open>scaledRandom\<close>, which gives for a
  total \<open>t\<close> the double that \<^verbatim>\<open>Math.random() * t\<close> evaluates to in this call. When the
  loop ends without returning, the function returns \<^verbatim>\<open>providers[0]\<close>, which is
  \<^verbatim>\<open>undefined\<close> (here \<open>None\<close>) for an empty array.
\<close>

definition totalWeight :: "provider list \<Rightarrow> int" where
  "totalWeight providers = foldl (\<lambda>sum provider. sum + weight provider) 0 providers"

fun selectLoop :: "real \<Rightarrow> provider list \<Rightarrow> provider option" where
  "selectLoop random [] = None"
| "selectLoop random (provider # rest) =
     (if random < real_of_int (weight provider) then Some provider
      else selectLoop (random - real_of_int (weight provider)) rest)"

definition firstProvider :: "provider list \<Rightarrow> provider option" where
  "firstProvider providers = (case providers of [] \<Rightarrow> None | p # _ \<Rightarrow> Some p)"

definition selectProvider :: "(int \<Rightarrow> real) \<Rightarrow> provider list \<Rightarrow> provider option" where
  "selectProvider scaledRandom providers =
     (let random = scaledRandom (totalWeight providers)
      in case selectLoop random providers of
           Some provider \<Rightarrow> Some provider
         | None \<Rightarrow> firstProvider providers)"

text \<open>
  The selection as the specification words it: walk the sequence accumulating weight and
  return the first provider whose interval \<open>[lo, lo + weight)\<close> of cumulative weight
  contains the draw.
\<close>

fun intervalSelect :: "real \<Rightarrow> real \<Rightarrow> provider list \<Rightarrow> provider option" where
  "intervalSelect r lo [] = None"
| "intervalSelect r lo (provider # rest) =
     (if lo \<le> r \<and> r < lo + real_of_int (weight provider) then Some provider
      else intervalSelect r (lo + real_of_int (weight provider)) rest)"

definition cumulative :: "provider list \<Rightarrow> real" where
  "cumulative providers = real_of_int (sum_list (map weight providers))"

definition exampleRegistry :: "provider list" where
  "exampleRegistry =
    [\<lparr>name = ''A'', url = ''https://a.example/dns-query'', weight = 20\<rparr>,
     \<lparr>name = ''B'', url = ''https://b.example/dns-query'', weight = 15\<rparr>,
     \<lparr>name = ''C'', url = ''https://c.example/dns-query'', weight = 15\<rparr>,
     \<lparr>name = ''D'', url = ''https://d.example/dns-query'', weight = 10\<rparr>]"

section \<open>The platform: headers, requests, responses\<close>

text \<open>
  Byte sequences are strings (a \<open>char\<close> is a byte). A \<^verbatim>\<open>Headers\<close> object is a map
  from the lower-cased header name to its value: \<^verbatim>\<open>set\<close> replaces whatever the name
  had, and \<^verbatim>\<open>new Headers(h)\<close> is a copy, which for a value is \<open>h\<close> itself.
  What can throw in the handler: reading the inbound body, \<^verbatim>\<open>fetch\<close>, reading a
  property of \<^verbatim>\<open>undefined\<close>, and \<^verbatim>\<open>new Response\<close>, which throws a
  \<^verbatim>\<open>RangeError\<close> for a status outside 200..599. The registry's urls are valid and
  the headers and status texts come from \<^verbatim>\<open>Headers\<close> and \<^verbatim>\<open>Response\<close> objects, so
  \<^verbatim>\<open>new Headers\<close> and \<^verbatim>\<open>new Request\<close> do not throw here; a response of
  \<^verbatim>\<open>fetch\<close> with a null-body status (204, 205, 304) has a null body, so that
  \<^verbatim>\<open>new Response\<close> does not throw for a body it must not have.
\<close>

type_synonym bytes = string

type_synonym headers = "string \<rightharpoonup> string"

definition asciiLower :: "char \<Rightarrow> char" where
  "asciiLower c =
     (let n = (of_char c :: nat) in if 65 \<le> n \<and> n \<le> 90 then char_of (n + 32) else c)"

definition headerName :: "string \<Rightarrow> string" where
  "headerName n = map asciiLower n"

definition headers_set :: "headers \<Rightarrow> string \<Rightarrow> string \<Rightarrow> headers" where
  "headers_set h n v = h(headerName n \<mapsto> v)"

definition headers_get :: "headers \<Rightarrow> string \<Rightarrow> string option" where
  "headers_get h n = h (headerName n)"

definition headers_init :: "(string \<times> string) list \<Rightarrow> headers" where
  "headers_init kvs = foldl (\<lambda>h (n, v). headers_set h n v) Map.empty kvs"

text \<open>
  The inbound request, with the two parts of \<^verbatim>\<open>new URL(request.url)\<close> that the
  handler reads: \<^verbatim>\<open>url.pathname\<close>, and \<^verbatim>\<open>url.search\<close> (empty, or the query with its
  leading question mark). A body that is \<^verbatim>\<open>null\<close> is \<open>None\<close>. The field
  \<open>http_method\<close> is \<^verbatim>\<open>request.method\<close>.
\<close>

record request =
  http_method :: string
  pathname :: string
  search :: string
  headers :: headers
  body :: "bytes option"

datatype redirect_mode = Follow | Error | Manual

text \<open>The \<^verbatim>\<open>Request\<close> that the handler builds for an upstream resolver.\<close>

record upstream_request =
  targetUrl :: string
  up_method :: string
  up_headers :: headers
  up_body :: "bytes option"
  redirect :: redirect_mode

record response =
  status :: nat
  statusText :: string
  resp_headers :: headers
  resp_body :: "bytes option"

definition ok :: "response \<Rightarrow> bool" where
  "ok r = (200 \<le> status r \<and> status r \<le> 299)"

text \<open>The statuses that \<^verbatim>\<open>new Response(body, { status, ... })\<close> accepts.\<close>

definition validStatus :: "nat \<Rightarrow> bool" where
  "validStatus st = (200 \<le> st \<and> st \<le> 599)"

text \<open>
  \<^verbatim>\<open>new Response(text, { status })\<close>: the status text defaults to the empty string and
  a string body brings its content type.
\<close>

definition textResponse :: "string \<Rightarrow> nat \<Rightarrow> response" where
  "textResponse text st =
     \<lparr>status = st, statusText = [],
      resp_headers = headers_init [(''Content-Type'', ''text/plain;charset=UTF-8'')],
      resp_body = Some text\<rparr>"

datatype exception = BodyAlreadyUsed | UndefinedProvider | TransportError | RangeError

datatype fetch_outcome = Rejects | Responds response

text \<open>
  What a request's handling can observe of the outside: the double that
  \<^verbatim>\<open>Math.random() * t\<close> evaluates to for a total \<open>t\<close>, the outcome of the \<open>k\<close>-th
  \<^verbatim>\<open>fetch\<close> of this handling for the request it is given, the clock, the date
  formatting of \<^verbatim>\<open>toUTCString\<close>, and the two HTML pages, whose text is left out.
\<close>

record platform =
  scaledRandom :: "int \<Rightarrow> real"
  network :: "nat \<Rightarrow> upstream_request \<Rightarrow> fetch_outcome"
  dateNow :: int
  toUTCString :: "int \<Rightarrow> string"
  landingHtml :: "request \<Rightarrow> string"
  encodingHtml :: string

text \<open>
  What a request's handling changes: whether the inbound body has been read, how many
  times \<^verbatim>\<open>Math.random()\<close> was called, and the upstream requests given to
  \<^verbatim>\<open>fetch\<close>, in the order of the calls.
\<close>

record world =
  bodyUsed :: bool
  draws :: nat
  fetched :: "upstream_request list"

definition fresh :: world where
  "fresh = \<lparr>bodyUsed = False, draws = 0, fetched = []\<rparr>"

text \<open>
  \<^verbatim>\<open>request.arrayBuffer()\<close>: a null body reads as no bytes; a body can be read once,
  and a second read rejects.
\<close>

definition arrayBuffer :: "request \<Rightarrow> world \<Rightarrow> (exception + bytes) \<times> world" where
  "arrayBuffer req w =
     (case body req of
        None \<Rightarrow> (Inr [], w)
      | Some b \<Rightarrow> if bodyUsed w then (Inl BodyAlreadyUsed, w)
                  else (Inr b, w\<lparr>bodyUsed := True\<rparr>))"

text \<open>\<^verbatim>\<open>fetch(upstreamRequest)\<close>: the call is recorded, and it rejects or responds.\<close>

definition fetch :: "platform \<Rightarrow> upstream_request \<Rightarrow> world \<Rightarrow> (exception + response) \<times> world" where
  "fetch env r w =
     (case network env (length (fetched w)) r of
        Rejects \<Rightarrow> (Inl TransportError, w\<lparr>fetched := fetched w @ [r]\<rparr>)
      | Responds resp \<Rightarrow> (Inr resp, w\<lparr>fetched := fetched w @ [r]\<rparr>))"

subsection \<open>The query parameters\<close>

text \<open>
  \<^verbatim>\<open>url.searchParams.has(name)\<close>: the query is cut at every \<^verbatim>\<open>&\<close>, empty pieces are
  dropped, the name of a piece is what stands before its first \<^verbatim>\<open>=\<close>, with \<^verbatim>\<open>+\<close>
  read as a space and percent escapes decoded.
\<close>

fun splitOn :: "char \<Rightarrow> string \<Rightarrow> string list" where
  "splitOn sep [] = [[]]"
| "splitOn sep (c # cs) =
     (if c = sep then [] # splitOn sep cs
      else (case splitOn sep cs of [] \<Rightarrow> [[c]] | x # xs \<Rightarrow> (c # x) # xs))"

definition hexValue :: "char \<Rightarrow> nat option" where
  "hexValue c =
     (let n = (of_char c :: nat) in
      if 48 \<le> n \<and> n \<le> 57 then Some (n - 48)
      else if 65 \<le> n \<and> n \<le> 70 then Some (n - 55)
      else if 97 \<le> n \<and> n \<le> 102 then Some (n - 87)
      else None)"

fun percentDecode :: "string \<Rightarrow> string" where
  "percentDecode (c # h # l # rest) =
     (if c = CHR ''%'' then
        (case (hexValue h, hexValue l) of
           (Some a, Some b) \<Rightarrow> char_of (16 * a + b) # percentDecode rest
         | _ \<Rightarrow> c # percentDecode (h # l # rest))
      else c # percentDecode (h # l # rest))"
| "percentDecode cs = cs"

definition paramName :: "string \<Rightarrow> string" where
  "paramName piece =
     percentDecode (map (\<lambda>c. if c = CHR ''+'' then CHR '' '' else c)
       (takeWhile (\<lambda>c. c \<noteq> CHR ''='') piece))"

definition searchParams_has :: "string \<Rightarrow> string \<Rightarrow> bool" where
  "searchParams_has srch n =
     (let query = (case srch of [] \<Rightarrow> [] | _ # q \<Rightarrow> q)
      in n \<in> set (map paramName (filter (\<lambda>piece. piece \<noteq> []) (splitOn CHR ''&'' query))))"

subsection \<open>Numbers in template literals\<close>

fun decimal :: "nat \<Rightarrow> string" where
  "decimal n =
     (if n < 10 then [char_of (48 + n)]
      else decimal (n div 10) @ [char_of (48 + n mod 10)])"

declare decimal.simps [simp del]

section \<open>The pages outside the DNS path\<close>

definition serveLandingPage :: "platform \<Rightarrow> request \<Rightarrow> response" where
  "serveLandingPage env req =
     \<lparr>status = 200, statusText = [],
      resp_headers = headers_init [(''Content-Type'', ''text/html; charset=utf-8''),
                                   (''Cache-Control'', ''public, max-age=3600'')],
      resp_body = Some (landingHtml env req)\<rparr>"

definition serveDNSEncodingExplanation :: "platform \<Rightarrow> response" where
  "serveDNSEncodingExplanation env =
     \<lparr>status = 200, statusText = [],
      resp_headers = headers_init [(''Content-Type'', ''text/html; charset=utf-8''),
                                   (''Cache-Control'', ''public, max-age=3600'')],
      resp_body = Some (encodingHtml env)\<rparr>"

definition handleCORS :: response where
  "handleCORS =
     \<lparr>status = 204, statusText = [],
      resp_headers = headers_init [(''Access-Control-Allow-Origin'', ''*''),
                                   (''Access-Control-Allow-Methods'', ''GET, POST, OPTIONS''),
                                   (''Access-Control-Allow-Headers'', ''Content-Type, Accept''),
                                   (''Access-Control-Max-Age'', ''86400'')],
      resp_body = None\<rparr>"

section \<open>The router\<close>

text \<open>
  The \<^verbatim>\<open>try\<close> block of \<^verbatim>\<open>handleRequest\<close>. A throw is an \<open>Inl\<close>; the statements
  run in the source's order, so the body is read before the request is built and sent.
  Reading a property of \<^verbatim>\<open>undefined\<close> (no provider selected) throws as well.
  \<open>primaryResponse\<close> is the response built from the upstream one at the end of the
  block: five headers are set, the last one from the clock. Its construction is still
  inside the block and throws for an upstream status that \<^verbatim>\<open>new Response\<close> does not
  accept.
\<close>

definition primaryResponse :: "platform \<Rightarrow> response \<Rightarrow> response" where
  "primaryResponse env resp =
     (let rh = resp_headers resp;
          rh = headers_set rh ''Access-Control-Allow-Origin'' ''*'';
          rh = headers_set rh ''Access-Control-Allow-Methods'' ''GET, POST, OPTIONS'';
          rh = headers_set rh ''Access-Control-Allow-Headers'' ''Content-Type, Accept'';
          rh = headers_set rh ''Cache-Control'' (''public, max-age='' @ decimal CACHE_TTL);
          rh = headers_set rh ''Expires''
                 (toUTCString env (dateNow env + int CACHE_TTL * 1000))
      in \<lparr>status = status resp, statusText = statusText resp,
          resp_headers = rh, resp_body = resp_body resp\<rparr>)"

definition primaryAttempt ::
  "platform \<Rightarrow> request \<Rightarrow> provider option \<Rightarrow> world \<Rightarrow> (exception + response) \<times> world" where
  "primaryAttempt env req selectedProvider w =
     (case selectedProvider of
        None \<Rightarrow> (Inl UndefinedProvider, w)
      | Some sp \<Rightarrow>
          let isPost = (http_method req = ''POST'');
              target = url sp @ search req;
              hs = headers req;
              hs = (if isPost then headers_set hs ''Content-Type'' ''application/dns-message''
                    else headers_set hs ''Accept'' ''application/dns-message'');
              hs = headers_set hs ''User-Agent'' ''DoH-Proxy-Worker/1.0'';
              (bodyInit, w) = (if isPost then
                                 (case arrayBuffer req w of
                                    (Inl e, w') \<Rightarrow> (Inl e, w')
                                  | (Inr b, w') \<Rightarrow> (Inr (Some b), w'))
                               else (Inr None, w))
          in case bodyInit of
               Inl e \<Rightarrow> (Inl e, w)
             | Inr b \<Rightarrow>
                 let upstreamRequest =
                       \<lparr>targetUrl = target, up_method = http_method req, up_headers = hs,
                        up_body = b, redirect = Follow\<rparr>
                 in case fetch env upstreamRequest w of
                      (Inl e, w) \<Rightarrow> (Inl e, w)
                    | (Inr resp, w) \<Rightarrow>
                        if validStatus (status resp)
                        then (Inr (primaryResponse env resp), w)
                        else (Inl RangeError, w))"

text \<open>The \<^verbatim>\<open>try\<close> block of one iteration of the loop of \<^verbatim>\<open>tryFallbackProviders\<close>.\<close>

definition fallbackAttempt ::
  "platform \<Rightarrow> request \<Rightarrow> provider \<Rightarrow> world \<Rightarrow> (exception + response) \<times> world" where
  "fallbackAttempt env req p w =
     (let target = url p @ search req;
          hs = headers req;
          hs = (if http_method req = ''POST''
                then headers_set hs ''Content-Type'' ''application/dns-message''
                else headers_set hs ''Accept'' ''application/dns-message'');
          hs = headers_set hs ''User-Agent'' ''DoH-Proxy-Worker/1.0'';
          (bodyInit, w) = (if http_method req = ''POST'' then
                             (case arrayBuffer req w of
                                (Inl e, w') \<Rightarrow> (Inl e, w')
                              | (Inr b, w') \<Rightarrow> (Inr (Some b), w'))
                           else (Inr None, w))
      in case bodyInit of
           Inl e \<Rightarrow> (Inl e, w)
         | Inr b \<Rightarrow>
             let upstreamRequest =
                   \<lparr>targetUrl = target, up_method = http_method req, up_headers = hs,
                    up_body = b, redirect = Follow\<rparr>
             in fetch env upstreamRequest w)"

text \<open>
  The response that the loop returns for an upstream response that is \<^verbatim>\<open>ok\<close>:
  four headers are set, and no \<^verbatim>\<open>Expires\<close>. Its status is within 200..299, which
  \<^verbatim>\<open>new Response\<close> accepts.
\<close>

definition fallbackResponse :: "response \<Rightarrow> response" where
  "fallbackResponse resp =
     (let rh = resp_headers resp;
          rh = headers_set rh ''Access-Control-Allow-Origin'' ''*'';
          rh = headers_set rh ''Access-Control-Allow-Methods'' ''GET, POST, OPTIONS'';
          rh = headers_set rh ''Access-Control-Allow-Headers'' ''Content-Type, Accept'';
          rh = headers_set rh ''Cache-Control'' (''public, max-age='' @ decimal CACHE_TTL)
      in \<lparr>status = status resp, statusText = statusText resp,
          resp_headers = rh, resp_body = resp_body resp\<rparr>)"

text \<open>
  The loop over the fallback providers: an attempt that throws, or whose response is not
  \<^verbatim>\<open>ok\<close>, goes on to the next provider; after the last one the 503 is returned.
\<close>

fun fallbackLoop ::
  "platform \<Rightarrow> request \<Rightarrow> provider list \<Rightarrow> world \<Rightarrow> response \<times> world" where
  "fallbackLoop env req [] w = (textResponse ''All DNS providers are unavailable'' 503, w)"
| "fallbackLoop env req (p # rest) w =
     (case fallbackAttempt env req p w of
        (Inl e, w') \<Rightarrow> fallbackLoop env req rest w'
      | (Inr resp, w') \<Rightarrow>
          if ok resp then (fallbackResponse resp, w') else fallbackLoop env req rest w')"

definition fallbackProviders :: "provider list \<Rightarrow> provider \<Rightarrow> provider list" where
  "fallbackProviders registry failedProvider =
     filter (\<lambda>p. name p \<noteq> name failedProvider) registry"

text \<open>
  \<^verbatim>\<open>tryFallbackProviders\<close>; the module-level registry is an argument. The callback of
  \<^verbatim>\<open>filter\<close> reads the name of the failed provider: when that provider is
  \<^verbatim>\<open>undefined\<close> the first call of the callback throws out of the function, and on an
  empty registry the callback is never called, the candidate list is empty and the loop
  returns the 503.
\<close>

definition tryFallbackProviders ::
  "provider list \<Rightarrow> platform \<Rightarrow> request \<Rightarrow> provider option \<Rightarrow> world
     \<Rightarrow> (exception + response) \<times> world" where
  "tryFallbackProviders registry env req failedProvider w =
     (case failedProvider of
        None \<Rightarrow>
          (if registry = [] then
             (case fallbackLoop env req [] w of (resp, w') \<Rightarrow> (Inr resp, w'))
           else (Inl UndefinedProvider, w))
      | Some fp \<Rightarrow>
          (case fallbackLoop env req (fallbackProviders registry fp) w of
             (resp, w') \<Rightarrow> (Inr resp, w')))"

text \<open>\<^verbatim>\<open>handleRequest\<close>, with the registry as an argument.\<close>

definition handleRequest ::
  "provider list \<Rightarrow> platform \<Rightarrow> request \<Rightarrow> world \<Rightarrow> (exception + response) \<times> world" where
  "handleRequest registry env req w =
     (if pathname req = ''/'' then (Inr (serveLandingPage env req), w)
      else if pathname req = ''/dns-encoding'' then (Inr (serveDNSEncodingExplanation env), w)
      else if http_method req = ''OPTIONS'' then (Inr handleCORS, w)
      else if pathname req \<noteq> ''/dns-query''
        then (Inr (textResponse ''Invalid endpoint. Use /dns-query'' 400), w)
      else
        let isGet = (http_method req = ''GET'');
            isPost = (http_method req = ''POST'')
        in if \<not> isGet \<and> \<not> isPost
             then (Inr (textResponse ''Method not allowed. Use GET or POST.'' 405), w)
           else if isGet \<and> \<not> searchParams_has (search req) ''dns''
             then (Inr (textResponse ''Missing DNS query parameter'' 400), w)
           else
             let selectedProvider = selectProvider (scaledRandom env) registry;
                 w = w\<lparr>draws := Suc (draws w)\<rparr>
             in case primaryAttempt env req selectedProvider w of
                  (Inr resp, w') \<Rightarrow> (Inr resp, w')
                | (Inl e, w') \<Rightarrow> tryFallbackProviders registry env req selectedProvider w')"

text \<open>The worker's \<^verbatim>\<open>fetch\<close> entry point, on the registry of the module.\<close>

definition worker_fetch :: "platform \<Rightarrow> request \<Rightarrow> world \<Rightarrow> (exception + response) \<times> world" where
  "worker_fetch env req w = handleRequest DOH_PROVIDERS env req w"

section \<open>The vocabulary of the specification\<close>

text \<open>
  The request translation as the specification words it (\<open>translate(inbound,
  targetProvider)\<close>): the target is the provider's url followed by the raw query string,
  the headers are the inbound ones with the content type forced for POST or the accepted
  type forced otherwise, and the user agent always set; the body is the inbound bytes
  for POST and absent otherwise; redirects are followed.
\<close>

definition translate :: "request \<Rightarrow> provider \<Rightarrow> upstream_request" where
  "translate req p =
     \<lparr>targetUrl = url p @ search req,
      up_method = http_method req,
      up_headers =
        headers_set
          (if http_method req = ''POST''
           then headers_set (headers req) ''Content-Type'' ''application/dns-message''
           else headers_set (headers req) ''Accept'' ''application/dns-message'')
          ''User-Agent'' ''DoH-Proxy-Worker/1.0'',
      up_body = (if http_method req = ''POST''
                 then Some (case body req of None \<Rightarrow> [] | Some b \<Rightarrow> b) else None),
      redirect = Follow\<rparr>"

text \<open>The four headers that every relayed response carries.\<close>

definition carriesForced :: "headers \<Rightarrow> bool" where
  "carriesForced h =
     (headers_get h ''Access-Control-Allow-Origin'' = Some ''*''
      \<and> headers_get h ''Access-Control-Allow-Methods'' = Some ''GET, POST, OPTIONS''
      \<and> headers_get h ''Access-Control-Allow-Headers'' = Some ''Content-Type, Accept''
      \<and> headers_get h ''Cache-Control'' = Some ''public, max-age=300'')"

definition forcedNames :: "string list" where
  "forcedNames = [''access-control-allow-origin'', ''access-control-allow-methods'',
                  ''access-control-allow-headers'', ''cache-control'']"

text \<open>
  The primary attempt fails over when its \<^verbatim>\<open>try\<close> block throws: the
  \<^verbatim>\<open>catch\<close> of \<^verbatim>\<open>handleRequest\<close> is the only caller of
  \<^verbatim>\<open>tryFallbackProviders\<close>.
\<close>

definition failsOver :: "provider list \<Rightarrow> platform \<Rightarrow> request \<Rightarrow> world \<Rightarrow> bool" where
  "failsOver registry env req w =
     isl (fst (primaryAttempt env req (selectProvider (scaledRandom env) registry)
                 (w\<lparr>draws := Suc (draws w)\<rparr>)))"

text \<open>
  A fallback attempt fails when it throws or its response is not \<^verbatim>\<open>ok\<close>;
  \<open>afterAttempt\<close> is the world it leaves, \<open>afterAttempts\<close> the world after one
  attempt for each provider of a list, in order, and \<open>allFail\<close> says that each of
  these attempts fails in the world where it is made.
\<close>

definition attemptFails :: "platform \<Rightarrow> request \<Rightarrow> provider \<Rightarrow> world \<Rightarrow> bool" where
  "attemptFails env req p w =
     (case fst (fallbackAttempt env req p w) of Inl e \<Rightarrow> True | Inr resp \<Rightarrow> \<not> ok resp)"

definition afterAttempt :: "platform \<Rightarrow> request \<Rightarrow> world \<Rightarrow> provider \<Rightarrow> world" where
  "afterAttempt env req w p = snd (fallbackAttempt env req p w)"

definition afterAttempts :: "platform \<Rightarrow> request \<Rightarrow> world \<Rightarrow> provider list \<Rightarrow> world" where
  "afterAttempts env req w ps = foldl (afterAttempt env req) w ps"

fun allFail :: "platform \<Rightarrow> request \<Rightarrow> provider list \<Rightarrow> world \<Rightarrow> bool" where
  "allFail env req [] w = True"
| "allFail env req (p # rest) w =
     (attemptFails env req p w \<and> allFail env req rest (afterAttempt env req w p))"

text \<open>
  A request whose every attempt can build its upstream body: it is not a POST, so the
  body is never read, or its body is \<^verbatim>\<open>null\<close>, which reads as no bytes each time.
\<close>

definition rereadable :: "request \<Rightarrow> bool" where
  "rereadable req = (http_method req \<noteq> ''POST'' \<or> body req = None)"

subsection \<open>Inputs for the examples\<close>

definition quietPlatform :: platform where
  "quietPlatform =
     \<lparr>scaledRandom = (\<lambda>t. 0), network = (\<lambda>k r. Rejects), dateNow = 0,
      toUTCString = (\<lambda>t. ''Thu, 01 Jan 1970 00:05:00 GMT''),
      landingHtml = (\<lambda>r. []), encodingHtml = []\<rparr>"

text \<open>A platform whose \<open>k\<close>-th \<^verbatim>\<open>fetch\<close> has the \<open>k\<close>-th outcome of a list.\<close>

definition scripted :: "fetch_outcome list \<Rightarrow> platform" where
  "scripted outcomes =
     quietPlatform\<lparr>network := (\<lambda>k r. if k < length outcomes then outcomes ! k else Rejects)\<rparr>"

definition getRequest :: "string \<Rightarrow> request" where
  "getRequest srch =
     \<lparr>http_method = ''GET'', pathname = ''/dns-query'', search = srch,
      headers = Map.empty, body = None\<rparr>"

definition postRequest :: "bytes \<Rightarrow> request" where
  "postRequest b =
     \<lparr>http_method = ''POST'', pathname = ''/dns-query'', search = [],
      headers = Map.empty, body = Some b\<rparr>"

definition upstreamAnswer :: "nat \<Rightarrow> response" where
  "upstreamAnswer st =
     \<lparr>status = st, statusText = ''upstream'', resp_headers = Map.empty,
      resp_body = Some ''answer''\<rparr>"

section \<open>Facts about the selection\<close>

lemma foldl_weight_shift:
  "foldl (\<lambda>sum provider. sum + weight provider) a ps = a + sum_list (map weight ps)"
  by (induction ps arbitrary: a) simp_all

lemma totalWeight_sum_list: "totalWeight ps = sum_list (map weight ps)"
  by (simp add: totalWeight_def foldl_weight_shift)

lemma totalWeight_Cons: "totalWeight (p # ps) = weight p + totalWeight ps"
  by (simp add: totalWeight_sum_list)

lemma cumulative_totalWeight: "cumulative ps = real_of_int (totalWeight ps)"
  by (simp add: cumulative_def totalWeight_sum_list)

lemma selectLoop_member: "selectLoop r ps = Some p \<Longrightarrow> p \<in> set ps"
  by (induction ps arbitrary: r) (auto split: if_splits)

lemma selectLoop_returns:
  "0 \<le> r \<Longrightarrow> r < real_of_int (totalWeight ps) \<Longrightarrow> \<exists>p. selectLoop r ps = Some p"
proof (induction ps arbitrary: r)
  case Nil
  then show ?case
    by (simp add: totalWeight_def)
next
  case (Cons q qs)
  show ?case
  proof (cases "r < real_of_int (weight q)")
    case True
    then show ?thesis by simp
  next
    case False
    from Cons.prems have "r - real_of_int (weight q) < real_of_int (totalWeight qs)"
      by (simp add: totalWeight_Cons)
    moreover from False have "0 \<le> r - real_of_int (weight q)" by simp
    ultimately show ?thesis using Cons.IH False by simp
  qed
qed

lemma selectLoop_interval:
  "lo \<le> r \<Longrightarrow> selectLoop (r - lo) ps = intervalSelect r lo ps"
proof (induction ps arbitrary: lo)
  case Nil
  show ?case by simp
next
  case (Cons q qs)
  show ?case
  proof (cases "r < lo + real_of_int (weight q)")
    case True
    with Cons.prems show ?thesis by simp
  next
    case False
    then have "lo + real_of_int (weight q) \<le> r" by simp
    from Cons.IH [OF this] False Cons.prems show ?thesis
      by (simp add: algebra_simps)
  qed
qed

lemma selectLoop_index:
  assumes "\<forall>p\<in>set ps. 0 < weight p" and "0 \<le> r" and "r < real_of_int (totalWeight ps)"
  shows "\<exists>i<length ps. selectLoop r ps = Some (ps ! i)
           \<and> cumulative (take i ps) \<le> r \<and> r < cumulative (take (Suc i) ps)
           \<and> r - cumulative (take i ps) < real_of_int (weight (ps ! i))
           \<and> (\<forall>j<i. \<not> r < cumulative (take (Suc j) ps))"
  using assms
proof (induction ps arbitrary: r)
  case Nil
  then show ?case
    by (simp add: totalWeight_def)
next
  case (Cons q qs)
  show ?case
  proof (cases "r < real_of_int (weight q)")
    case True
    with Cons.prems(2) have "selectLoop r (q # qs) = Some ((q # qs) ! 0)
           \<and> cumulative (take 0 (q # qs)) \<le> r \<and> r < cumulative (take (Suc 0) (q # qs))
           \<and> r - cumulative (take 0 (q # qs)) < real_of_int (weight ((q # qs) ! 0))
           \<and> (\<forall>j<0. \<not> r < cumulative (take (Suc j) (q # qs)))"
      by (simp add: cumulative_def)
    then show ?thesis by blast
  next
    case False
    let ?r = "r - real_of_int (weight q)"
    have pos: "\<forall>p\<in>set qs. 0 < weight p" using Cons.prems(1) by simp
    have lo: "0 \<le> ?r" using False by simp
    have hi: "?r < real_of_int (totalWeight qs)"
      using Cons.prems(3) by (simp add: totalWeight_Cons)
    from Cons.IH [OF pos lo hi] obtain i where i: "i < length qs"
      "selectLoop ?r qs = Some (qs ! i)"
      "cumulative (take i qs) \<le> ?r" "?r < cumulative (take (Suc i) qs)"
      "?r - cumulative (take i qs) < real_of_int (weight (qs ! i))"
      "\<forall>j<i. \<not> ?r < cumulative (take (Suc j) qs)"
      by blast
    have first: "\<forall>j<Suc i. \<not> r < cumulative (take (Suc j) (q # qs))"
    proof (intro allI impI)
      fix j assume j: "j < Suc i"
      show "\<not> r < cumulative (take (Suc j) (q # qs))"
      proof (cases j)
        case 0
        with False show ?thesis by (simp add: cumulative_def)
      next
        case (Suc k)
        with j i(6) have "\<not> ?r < cumulative (take (Suc k) qs)" by simp
        with Suc show ?thesis by (simp add: cumulative_def)
      qed
    qed
    have "Suc i < length (q # qs) \<and> selectLoop r (q # qs) = Some ((q # qs) ! Suc i)
           \<and> cumulative (take (Suc i) (q # qs)) \<le> r
           \<and> r < cumulative (take (Suc (Suc i)) (q # qs))
           \<and> r - cumulative (take (Suc i) (q # qs)) < real_of_int (weight ((q # qs) ! Suc i))"
      using i(1-5) False by (simp add: cumulative_def)
    with first show ?thesis by blast
  qed
qed

section \<open>Selection: the claims\<close>

lemma selectProvider_loop:
  "selectLoop (draw (totalWeight ps)) ps = Some p \<Longrightarrow> selectProvider draw ps = Some p"
  by (simp add: selectProvider_def)

lemma weights_example:
  assumes "map weight ps = [20, 15, 15, 10]"
  shows "draw 60 = 18 \<longrightarrow> selectProvider draw ps = Some (ps ! 0)"
    and "draw 60 = 25 \<longrightarrow> selectProvider draw ps = Some (ps ! 1)"
    and "draw 60 = 42 \<longrightarrow> selectProvider draw ps = Some (ps ! 2)"
proof -
  from assms obtain a b c d where ps: "ps = [a, b, c, d]"
    and w: "weight a = 20" "weight b = 15" "weight c = 15" "weight d = 10"
    by (auto simp: map_eq_Cons_conv)
  have t: "totalWeight ps = 60"
    by (simp add: ps w totalWeight_def)
  show "draw 60 = 18 \<longrightarrow> selectProvider draw ps = Some (ps ! 0)"
    by (simp add: selectProvider_def t) (simp add: ps w)
  show "draw 60 = 25 \<longrightarrow> selectProvider draw ps = Some (ps ! 1)"
    by (simp add: selectProvider_def t) (simp add: ps w)
  show "draw 60 = 42 \<longrightarrow> selectProvider draw ps = Some (ps ! 2)"
    by (simp add: selectProvider_def t) (simp add: ps w)
qed

text \<open>
  Claim C5. Let the providers have positive weights and let the draw \<open>r\<close>, the double
  that \<^verbatim>\<open>Math.random() * totalWeight\<close> evaluates to, satisfy \<open>0 \<le> r < total\<close>. Then
  \<^verbatim>\<open>selectProvider\<close> returns what the selection by cumulative intervals returns: the
  provider at the least index \<open>i\<close> with \<open>r\<close> below the sum of the first \<open>i + 1\<close> weights,
  which is the first one whose weight is above what is left of \<open>r\<close> once the earlier
  weights are subtracted. With the weights 20, 15, 15, 10 (total 60) it returns the first
  provider for \<open>r = 18\<close>, the second for \<open>r = 25\<close> and the third for \<open>r = 42\<close>.
\<close>

theorem selectProvider_first_interval:
  "(\<forall>ps draw r. (\<forall>p\<in>set ps. 0 < weight p) \<and> draw (totalWeight ps) = r
        \<and> 0 \<le> r \<and> r < real_of_int (totalWeight ps) \<longrightarrow>
      selectProvider draw ps = intervalSelect r 0 ps
      \<and> (\<exists>i<length ps. selectProvider draw ps = Some (ps ! i)
            \<and> cumulative (take i ps) \<le> r \<and> r < cumulative (take (Suc i) ps)
            \<and> r - cumulative (take i ps) < real_of_int (weight (ps ! i))
            \<and> (\<forall>j<i. \<not> r < cumulative (take (Suc j) ps))))
   \<and> (\<forall>ps draw. map weight ps = [20, 15, 15, 10] \<longrightarrow>
        (draw 60 = 18 \<longrightarrow> selectProvider draw ps = Some (ps ! 0))
      \<and> (draw 60 = 25 \<longrightarrow> selectProvider draw ps = Some (ps ! 1))
      \<and> (draw 60 = 42 \<longrightarrow> selectProvider draw ps = Some (ps ! 2)))"
proof (intro conjI allI impI)
  fix ps :: "provider list" and draw :: "int \<Rightarrow> real" and r :: real
  assume h: "(\<forall>p\<in>set ps. 0 < weight p) \<and> draw (totalWeight ps) = r
        \<and> 0 \<le> r \<and> r < real_of_int (totalWeight ps)"
  then have pos: "\<forall>p\<in>set ps. 0 < weight p" and r: "draw (totalWeight ps) = r"
    and lo: "0 \<le> r" and hi: "r < real_of_int (totalWeight ps)"
    by simp_all
  from selectLoop_index [OF pos lo hi] obtain i where i: "i < length ps"
    "selectLoop r ps = Some (ps ! i)"
    "cumulative (take i ps) \<le> r" "r < cumulative (take (Suc i) ps)"
    "r - cumulative (take i ps) < real_of_int (weight (ps ! i))"
    "\<forall>j<i. \<not> r < cumulative (take (Suc j) ps)"
    by blast
  have sel: "selectProvider draw ps = Some (ps ! i)"
    using i(2) r by (simp add: selectProvider_loop)
  from selectLoop_interval [of 0 r ps] lo i(2) sel
  show "selectProvider draw ps = intervalSelect r 0 ps"
    by simp
  from i sel
  show "\<exists>i<length ps. selectProvider draw ps = Some (ps ! i)
            \<and> cumulative (take i ps) \<le> r \<and> r < cumulative (take (Suc i) ps)
            \<and> r - cumulative (take i ps) < real_of_int (weight (ps ! i))
            \<and> (\<forall>j<i. \<not> r < cumulative (take (Suc j) ps))"
    by blast
next
  fix ps :: "provider list" and draw :: "int \<Rightarrow> real"
  assume w: "map weight ps = [20, 15, 15, 10]"
  { assume "draw 60 = 18"
    with weights_example(1) [OF w, of draw]
    show "selectProvider draw ps = Some (ps ! 0)" by simp }
  { assume "draw 60 = 25"
    with weights_example(2) [OF w, of draw]
    show "selectProvider draw ps = Some (ps ! 1)" by simp }
  { assume "draw 60 = 42"
    with weights_example(3) [OF w, of draw]
    show "selectProvider draw ps = Some (ps ! 2)" by simp }
qed

lemma exampleRegistry_total: "totalWeight exampleRegistry = 60"
  by (simp add: exampleRegistry_def totalWeight_def)

theorem selectProvider_first_interval_witness:
  "list_all (\<lambda>p. 0 < weight p) exampleRegistry
   \<and> (\<lambda>t. 25) (totalWeight exampleRegistry) = (25::real)
   \<and> (25::real) < real_of_int (totalWeight exampleRegistry)
   \<and> selectProvider (\<lambda>t. 25) exampleRegistry = intervalSelect 25 0 exampleRegistry
   \<and> intervalSelect 25 0 exampleRegistry = Some (exampleRegistry ! 1)
   \<and> map weight exampleRegistry = [20, 15, 15, 10]
   \<and> name (the (selectProvider (\<lambda>t. 18) exampleRegistry)) = ''A''
   \<and> name (the (selectProvider (\<lambda>t. 25) exampleRegistry)) = ''B''
   \<and> name (the (selectProvider (\<lambda>t. 42) exampleRegistry)) = ''C''"
proof -
  have pos: "\<forall>p\<in>set exampleRegistry. 0 < weight p"
    by (simp add: exampleRegistry_def)
  have r: "(\<lambda>t. 25) (totalWeight exampleRegistry) = (25::real)"
    and hi: "(25::real) < real_of_int (totalWeight exampleRegistry)"
    by (simp_all add: exampleRegistry_total)
  have ws: "map weight exampleRegistry = [20, 15, 15, 10]"
    by (simp add: exampleRegistry_def)
  have iv: "intervalSelect 25 0 exampleRegistry = Some (exampleRegistry ! 1)"
    by (simp add: exampleRegistry_def)
  have lo: "(0::real) \<le> 25" by simp
  from selectProvider_first_interval
         [THEN conjunct1, rule_format, of exampleRegistry "\<lambda>t. 25" 25]
    pos r lo hi
  have a: "selectProvider (\<lambda>t. 25) exampleRegistry = intervalSelect 25 0 exampleRegistry"
    by simp
  note ex = selectProvider_first_interval [THEN conjunct2, rule_format, OF ws]
  have b: "selectProvider (\<lambda>t. 18) exampleRegistry = Some (exampleRegistry ! 0)"
    "selectProvider (\<lambda>t. 25) exampleRegistry = Some (exampleRegistry ! 1)"
    "selectProvider (\<lambda>t. 42) exampleRegistry = Some (exampleRegistry ! 2)"
    using ex [of "\<lambda>t. 18"] ex [of "\<lambda>t. 25"] ex [of "\<lambda>t. 42"] by simp_all
  have c: "name (exampleRegistry ! 0) = ''A''" "name (exampleRegistry ! 1) = ''B''"
    "name (exampleRegistry ! 2) = ''C''"
    by (simp_all add: exampleRegistry_def)
  from pos hi ws iv a b c show ?thesis
    by (simp add: list_all_iff)
qed

text \<open>
  Claim C6. For a non-empty sequence of providers with positive weights and a draw
  \<open>r\<close>, the double that \<^verbatim>\<open>Math.random() * totalWeight\<close> evaluates to, with
  \<open>0 \<le> r < total\<close>, \<^verbatim>\<open>selectProvider\<close> returns exactly one provider, a member of the
  sequence, and it is the loop that returns it: the final \<^verbatim>\<open>return providers[0]\<close> is
  not reached.
\<close>

theorem selectProvider_member_no_fallback:
  assumes "ps \<noteq> []" and "\<forall>p\<in>set ps. 0 < weight p"
    and "draw (totalWeight ps) = r" and "0 \<le> r" and "r < real_of_int (totalWeight ps)"
  shows "\<exists>!p. selectProvider draw ps = Some p \<and> selectLoop r ps = Some p \<and> p \<in> set ps"
proof -
  from selectLoop_returns [OF assms(4,5)] obtain p where p: "selectLoop r ps = Some p"
    by blast
  then have "selectProvider draw ps = Some p"
    using assms(3) by (simp add: selectProvider_loop)
  moreover from p have "p \<in> set ps" by (rule selectLoop_member)
  ultimately show ?thesis using p by auto
qed

lemma DOH_PROVIDERS_total: "totalWeight DOH_PROVIDERS = 100"
  by (simp add: DOH_PROVIDERS_def totalWeight_def)

theorem selectProvider_member_no_fallback_witness:
  "DOH_PROVIDERS \<noteq> [] \<and> list_all (\<lambda>p. 0 < weight p) DOH_PROVIDERS
   \<and> (70::real) < real_of_int (totalWeight DOH_PROVIDERS)
   \<and> selectLoop 70 DOH_PROVIDERS = Some (DOH_PROVIDERS ! 5)
   \<and> name (DOH_PROVIDERS ! 5) = ''ControlD''
   \<and> (\<exists>!p. selectProvider (\<lambda>t. 70) DOH_PROVIDERS = Some p \<and> selectLoop 70 DOH_PROVIDERS = Some p
         \<and> p \<in> set DOH_PROVIDERS)"
proof -
  have ne: "DOH_PROVIDERS \<noteq> []" and pos: "\<forall>p\<in>set DOH_PROVIDERS. 0 < weight p"
    by (simp_all add: DOH_PROVIDERS_def)
  have r: "(\<lambda>t. 70) (totalWeight DOH_PROVIDERS) = (70::real)"
    and hi: "(70::real) < real_of_int (totalWeight DOH_PROVIDERS)"
    by (simp_all add: DOH_PROVIDERS_total)
  have lo: "(0::real) \<le> 70" by simp
  have l: "selectLoop 70 DOH_PROVIDERS = Some (DOH_PROVIDERS ! 5)"
    and n: "name (DOH_PROVIDERS ! 5) = ''ControlD''"
    by (simp_all add: DOH_PROVIDERS_def)
  from ne pos hi l n selectProvider_member_no_fallback [OF ne pos r lo hi] show ?thesis
    by (simp add: list_all_iff)
qed

lemma filter_name_other:
  "name P \<notin> name ` set xs \<Longrightarrow> filter (\<lambda>p. name p \<noteq> name P) xs = xs"
  by (induction xs) auto

text \<open>
  Claim C7. For a registry with unique names and a provider \<open>P\<close> of it, the list of
  fallback candidates is the registry with \<open>P\<close> taken out, in the registry's order and
  with no use of the weights; it has one member less than the registry (seven for a
  registry of eight) and \<open>P\<close> is not among them.
\<close>

theorem fallbackProviders_registry_minus_failed:
  assumes "distinct (map name registry)" and "P \<in> set registry"
  shows "\<exists>before after. registry = before @ P # after
           \<and> fallbackProviders registry P = before @ after
           \<and> P \<notin> set (fallbackProviders registry P)
           \<and> Suc (length (fallbackProviders registry P)) = length registry
           \<and> (length registry = 8 \<longrightarrow> length (fallbackProviders registry P) = 7)"
proof -
  from assms(2) obtain before after where split: "registry = before @ P # after"
    by (auto simp: in_set_conv_decomp)
  with assms(1) have "name P \<notin> name ` set before" and "name P \<notin> name ` set after"
    by auto
  then have f: "fallbackProviders registry P = before @ after"
    by (simp add: fallbackProviders_def split filter_name_other)
  have "P \<notin> set (fallbackProviders registry P)"
    by (auto simp: fallbackProviders_def)
  with split f show ?thesis
    by auto
qed

theorem fallbackProviders_registry_minus_failed_witness:
  "distinct (map name DOH_PROVIDERS) \<and> DOH_PROVIDERS ! 2 \<in> set DOH_PROVIDERS
   \<and> length DOH_PROVIDERS = 8
   \<and> map name (fallbackProviders DOH_PROVIDERS (DOH_PROVIDERS ! 2)) =
       [''Cloudflare'', ''Google'', ''OpenDNS'', ''AdGuard'', ''ControlD'', ''Mullvad'', ''NextDNS'']
   \<and> (\<exists>before after. DOH_PROVIDERS = before @ DOH_PROVIDERS ! 2 # after
           \<and> fallbackProviders DOH_PROVIDERS (DOH_PROVIDERS ! 2) = before @ after
           \<and> DOH_PROVIDERS ! 2 \<notin> set (fallbackProviders DOH_PROVIDERS (DOH_PROVIDERS ! 2))
           \<and> length (fallbackProviders DOH_PROVIDERS (DOH_PROVIDERS ! 2)) = 7)"
proof -
  have d: "distinct (map name DOH_PROVIDERS)"
    by (simp add: DOH_PROVIDERS_def)
  have m: "DOH_PROVIDERS ! 2 \<in> set DOH_PROVIDERS" and l: "length DOH_PROVIDERS = 8"
    by (simp_all add: DOH_PROVIDERS_def)
  have n: "map name (fallbackProviders DOH_PROVIDERS (DOH_PROVIDERS ! 2)) =
       [''Cloudflare'', ''Google'', ''OpenDNS'', ''AdGuard'', ''ControlD'', ''Mullvad'', ''NextDNS'']"
    by (simp add: DOH_PROVIDERS_def fallbackProviders_def)
  from fallbackProviders_registry_minus_failed [OF d m] l
  have "\<exists>before after. DOH_PROVIDERS = before @ DOH_PROVIDERS ! 2 # after
           \<and> fallbackProviders DOH_PROVIDERS (DOH_PROVIDERS ! 2) = before @ after
           \<and> DOH_PROVIDERS ! 2 \<notin> set (fallbackProviders DOH_PROVIDERS (DOH_PROVIDERS ! 2))
           \<and> length (fallbackProviders DOH_PROVIDERS (DOH_PROVIDERS ! 2)) = 7"
    by blast
  with d m l n show ?thesis by blast
qed

section \<open>The router: the claims\<close>

lemma headerName_literals:
  "headerName ''Content-Type'' = ''content-type''"
  "headerName ''Accept'' = ''accept''"
  "headerName ''User-Agent'' = ''user-agent''"
  "headerName ''Access-Control-Allow-Origin'' = ''access-control-allow-origin''"
  "headerName ''Access-Control-Allow-Methods'' = ''access-control-allow-methods''"
  "headerName ''Access-Control-Allow-Headers'' = ''access-control-allow-headers''"
  "headerName ''Cache-Control'' = ''cache-control''"
  "headerName ''Expires'' = ''expires''"
  by code_simp+

lemma decimal_CACHE_TTL: "decimal CACHE_TTL = ''300''"
  by code_simp

lemma arrayBuffer_used:
  "bodyUsed w \<Longrightarrow> body req = Some b \<Longrightarrow> arrayBuffer req w = (Inl BodyAlreadyUsed, w)"
  by (simp add: arrayBuffer_def)

lemma arrayBuffer_unused:
  "\<not> bodyUsed w \<Longrightarrow> body req = Some b \<Longrightarrow> arrayBuffer req w = (Inr b, w\<lparr>bodyUsed := True\<rparr>)"
  by (simp add: arrayBuffer_def)

lemma arrayBuffer_null:
  "body req = None \<Longrightarrow> arrayBuffer req w = (Inr [], w)"
  by (simp add: arrayBuffer_def)

text \<open>The primary attempt when the body can be read.\<close>

lemma primaryAttempt_readable:
  assumes "\<not> bodyUsed w \<or> rereadable req"
  shows "primaryAttempt env req (Some sp) w =
     (let w' = w\<lparr>bodyUsed := (bodyUsed w \<or> \<not> rereadable req),
                  fetched := fetched w @ [translate req sp]\<rparr>
      in case network env (length (fetched w)) (translate req sp) of
           Rejects \<Rightarrow> (Inl TransportError, w')
         | Responds resp \<Rightarrow>
             if validStatus (status resp) then (Inr (primaryResponse env resp), w')
             else (Inl RangeError, w'))"
proof (cases "http_method req = ''POST''")
  case False
  then show ?thesis
    by (simp add: primaryAttempt_def translate_def rereadable_def fetch_def Let_def
        split: fetch_outcome.split)
next
  case post: True
  show ?thesis
  proof (cases "body req")
    case None
    with post show ?thesis
      by (simp add: primaryAttempt_def translate_def rereadable_def fetch_def Let_def
          arrayBuffer_null split: fetch_outcome.split)
  next
    case (Some b)
    with post assms have "\<not> bodyUsed w"
      by (simp add: rereadable_def)
    with post Some show ?thesis
      by (simp add: primaryAttempt_def translate_def rereadable_def fetch_def Let_def
          arrayBuffer_unused split: fetch_outcome.split)
  qed
qed

lemma fallbackAttempt_readable:
  assumes "\<not> bodyUsed w \<or> rereadable req"
  shows "fallbackAttempt env req p w =
     (let w' = w\<lparr>bodyUsed := (bodyUsed w \<or> \<not> rereadable req),
                  fetched := fetched w @ [translate req p]\<rparr>
      in case network env (length (fetched w)) (translate req p) of
           Rejects \<Rightarrow> (Inl TransportError, w')
         | Responds resp \<Rightarrow> (Inr resp, w'))"
proof (cases "http_method req = ''POST''")
  case False
  then show ?thesis
    by (simp add: fallbackAttempt_def translate_def rereadable_def fetch_def Let_def
        split: fetch_outcome.split)
next
  case post: True
  show ?thesis
  proof (cases "body req")
    case None
    with post show ?thesis
      by (simp add: fallbackAttempt_def translate_def rereadable_def fetch_def Let_def
          arrayBuffer_null split: fetch_outcome.split)
  next
    case (Some b)
    with post assms have "\<not> bodyUsed w"
      by (simp add: rereadable_def)
    with post Some show ?thesis
      by (simp add: fallbackAttempt_def translate_def rereadable_def fetch_def Let_def
          arrayBuffer_unused split: fetch_outcome.split)
  qed
qed

lemma fallbackAttempt_consumed:
  assumes "http_method req = ''POST''" and "body req = Some b" and "bodyUsed w"
  shows "fallbackAttempt env req p w = (Inl BodyAlreadyUsed, w)"
  using assms by (simp add: fallbackAttempt_def Let_def arrayBuffer_used)

text \<open>
  Claim C10. A GET request to \<^verbatim>\<open>/dns-query\<close> whose query string has no \<^verbatim>\<open>dns\<close>
  parameter is answered with the 400 response, and the world is left as it was: no
  call of \<^verbatim>\<open>Math.random()\<close>, so no provider is selected, and no call of
  \<^verbatim>\<open>fetch\<close>, whatever the registry and the platform are.
\<close>

theorem handleRequest_get_without_dns:
  assumes "http_method req = ''GET''" and "pathname req = ''/dns-query''"
    and "\<not> searchParams_has (search req) ''dns''"
  shows "handleRequest registry env req w =
           (Inr (textResponse ''Missing DNS query parameter'' 400), w)
         \<and> status (textResponse ''Missing DNS query parameter'' 400) = 400"
  using assms by (simp add: handleRequest_def textResponse_def)

theorem handleRequest_get_without_dns_witness:
  "http_method (getRequest ''?name=example.com'') = ''GET''
   \<and> pathname (getRequest ''?name=example.com'') = ''/dns-query''
   \<and> \<not> searchParams_has (search (getRequest ''?name=example.com'')) ''dns''
   \<and> handleRequest DOH_PROVIDERS quietPlatform (getRequest ''?name=example.com'') fresh =
        (Inr (textResponse ''Missing DNS query parameter'' 400), fresh)
   \<and> draws fresh = 0 \<and> fetched fresh = []"
proof -
  have m: "http_method (getRequest ''?name=example.com'') = ''GET''"
    and p: "pathname (getRequest ''?name=example.com'') = ''/dns-query''"
    by (simp_all add: getRequest_def)
  have "\<not> searchParams_has ''?name=example.com'' ''dns''"
    by code_simp
  then have q: "\<not> searchParams_has (search (getRequest ''?name=example.com'')) ''dns''"
    by (simp add: getRequest_def)
  from handleRequest_get_without_dns [OF m p q, of DOH_PROVIDERS quietPlatform fresh] m p q
  show ?thesis
    by (simp add: fresh_def)
qed


lemma headers_get_set:
  "headers_get (headers_set h n v) m =
     (if headerName m = headerName n then Some v else headers_get h m)"
  by (simp add: headers_get_def headers_set_def)

lemma translate_fields:
  "targetUrl (translate req p) = url p @ search req"
  "up_method (translate req p) = http_method req"
  "redirect (translate req p) = Follow"
  "up_body (translate req p) =
     (if http_method req = ''POST'' then Some (case body req of None \<Rightarrow> [] | Some b \<Rightarrow> b)
      else None)"
  by (simp_all add: translate_def)

lemma translate_headers:
  "headers_get (up_headers (translate req p)) n =
     (if headerName n = ''user-agent'' then Some ''DoH-Proxy-Worker/1.0''
      else if http_method req = ''POST'' \<and> headerName n = ''content-type''
        then Some ''application/dns-message''
      else if http_method req \<noteq> ''POST'' \<and> headerName n = ''accept''
        then Some ''application/dns-message''
      else headers_get (headers req) n)"
  by (simp add: translate_def headers_get_set headerName_literals)

lemma primaryAttempt_fetched:
  assumes "\<not> bodyUsed w \<or> rereadable req"
  shows "fetched (snd (primaryAttempt env req (Some sp) w)) = fetched w @ [translate req sp]"
  by (simp add: primaryAttempt_readable [OF assms] Let_def split: fetch_outcome.split)

lemma fallbackAttempt_fetched:
  assumes "\<not> bodyUsed w \<or> rereadable req"
  shows "fetched (snd (fallbackAttempt env req p w)) = fetched w @ [translate req p]"
  by (simp add: fallbackAttempt_readable [OF assms] Let_def split: fetch_outcome.split)

text \<open>
  Claim C8. When the inbound body can be read, the request that an attempt (the primary
  one, or one of the fallback loop) gives to \<^verbatim>\<open>fetch\<close> for a provider \<open>p\<close> is the
  translation of the inbound request: its URL is the provider's url followed by the raw
  query string, its headers are the inbound ones except that \<^verbatim>\<open>Content-Type\<close> (POST)
  or \<^verbatim>\<open>Accept\<close> (GET) is \<^verbatim>\<open>application/dns-message\<close> and \<^verbatim>\<open>User-Agent\<close> names the
  proxy, and its body is the inbound bytes for POST and absent for GET.
\<close>

theorem upstream_request_translation:
  assumes "http_method req = ''GET'' \<or> http_method req = ''POST''"
    and "\<not> bodyUsed w \<or> rereadable req"
  shows "fetched (snd (primaryAttempt env req (Some p) w)) = fetched w @ [translate req p]
    \<and> fetched (snd (fallbackAttempt env req p w)) = fetched w @ [translate req p]
    \<and> targetUrl (translate req p) = url p @ search req
    \<and> up_method (translate req p) = http_method req
    \<and> headers_get (up_headers (translate req p)) ''User-Agent'' = Some ''DoH-Proxy-Worker/1.0''
    \<and> (http_method req = ''POST'' \<longrightarrow>
         headers_get (up_headers (translate req p)) ''Content-Type'' = Some ''application/dns-message''
         \<and> (\<forall>n. headerName n \<noteq> ''content-type'' \<and> headerName n \<noteq> ''user-agent'' \<longrightarrow>
               headers_get (up_headers (translate req p)) n = headers_get (headers req) n)
         \<and> (\<forall>b. body req = Some b \<longrightarrow> up_body (translate req p) = Some b)
         \<and> (body req = None \<longrightarrow> up_body (translate req p) = Some []))
    \<and> (http_method req = ''GET'' \<longrightarrow>
         headers_get (up_headers (translate req p)) ''Accept'' = Some ''application/dns-message''
         \<and> (\<forall>n. headerName n \<noteq> ''accept'' \<and> headerName n \<noteq> ''user-agent'' \<longrightarrow>
               headers_get (up_headers (translate req p)) n = headers_get (headers req) n)
         \<and> up_body (translate req p) = None)"
proof -
  have a: "fetched (snd (primaryAttempt env req (Some p) w)) = fetched w @ [translate req p]"
    by (rule primaryAttempt_fetched [OF assms(2)])
  have b: "fetched (snd (fallbackAttempt env req p w)) = fetched w @ [translate req p]"
    by (rule fallbackAttempt_fetched [OF assms(2)])
  have c: "headers_get (up_headers (translate req p)) ''User-Agent'' = Some ''DoH-Proxy-Worker/1.0''"
    by (simp add: translate_headers headerName_literals)
  have d: "http_method req = ''POST'' \<longrightarrow>
         headers_get (up_headers (translate req p)) ''Content-Type'' = Some ''application/dns-message''
         \<and> (\<forall>n. headerName n \<noteq> ''content-type'' \<and> headerName n \<noteq> ''user-agent'' \<longrightarrow>
               headers_get (up_headers (translate req p)) n = headers_get (headers req) n)
         \<and> (\<forall>b. body req = Some b \<longrightarrow> up_body (translate req p) = Some b)
         \<and> (body req = None \<longrightarrow> up_body (translate req p) = Some [])"
    by (simp add: translate_headers translate_fields headerName_literals)
  have e: "http_method req = ''GET'' \<longrightarrow>
         headers_get (up_headers (translate req p)) ''Accept'' = Some ''application/dns-message''
         \<and> (\<forall>n. headerName n \<noteq> ''accept'' \<and> headerName n \<noteq> ''user-agent'' \<longrightarrow>
               headers_get (up_headers (translate req p)) n = headers_get (headers req) n)
         \<and> up_body (translate req p) = None"
    by (simp add: translate_headers translate_fields headerName_literals)
  from a b c d e show ?thesis
    by (simp only: translate_fields(1,2) simp_thms)
qed


theorem upstream_request_translation_witness:
  "http_method (postRequest ''msg'') = ''POST'' \<and> \<not> bodyUsed fresh
   \<and> map targetUrl (fetched (snd (primaryAttempt quietPlatform
          ((postRequest ''msg'')\<lparr>search := ''?ct=1'', headers := [''content-type'' \<mapsto> ''text/plain'', ''x-trace'' \<mapsto> ''7'']\<rparr>)
          (Some (exampleRegistry ! 0)) fresh))) = [''https://a.example/dns-query?ct=1'']
   \<and> map up_body (fetched (snd (primaryAttempt quietPlatform
          ((postRequest ''msg'')\<lparr>search := ''?ct=1'', headers := [''content-type'' \<mapsto> ''text/plain'', ''x-trace'' \<mapsto> ''7'']\<rparr>)
          (Some (exampleRegistry ! 0)) fresh))) = [Some ''msg'']
   \<and> map (\<lambda>r. headers_get (up_headers r) ''Content-Type'') (fetched (snd (primaryAttempt quietPlatform
          ((postRequest ''msg'')\<lparr>search := ''?ct=1'', headers := [''content-type'' \<mapsto> ''text/plain'', ''x-trace'' \<mapsto> ''7'']\<rparr>)
          (Some (exampleRegistry ! 0)) fresh))) = [Some ''application/dns-message'']
   \<and> map (\<lambda>r. headers_get (up_headers r) ''X-Trace'') (fetched (snd (primaryAttempt quietPlatform
          ((postRequest ''msg'')\<lparr>search := ''?ct=1'', headers := [''content-type'' \<mapsto> ''text/plain'', ''x-trace'' \<mapsto> ''7'']\<rparr>)
          (Some (exampleRegistry ! 0)) fresh))) = [Some ''7'']"
proof -
  let ?req = "(postRequest ''msg'')\<lparr>search := ''?ct=1'',
                 headers := [''content-type'' \<mapsto> ''text/plain'', ''x-trace'' \<mapsto> ''7'']\<rparr>"
  let ?p = "exampleRegistry ! 0"
  have m: "http_method ?req = ''GET'' \<or> http_method ?req = ''POST''"
    by (simp add: postRequest_def)
  have post: "http_method ?req = ''POST''" and b: "body ?req = Some ''msg''"
    by (simp_all add: postRequest_def)
  have u: "\<not> bodyUsed fresh \<or> rereadable ?req"
    by (simp add: fresh_def)
  have x: "headerName ''X-Trace'' = ''x-trace''"
    by code_simp
  note t = upstream_request_translation [OF m u, of quietPlatform ?p]
  from t have f: "fetched (snd (primaryAttempt quietPlatform ?req (Some ?p) fresh))
                    = fetched fresh @ [translate ?req ?p]"
    by blast
  from t have tu: "targetUrl (translate ?req ?p) = url ?p @ search ?req"
    by blast
  from t post have ct: "headers_get (up_headers (translate ?req ?p)) ''Content-Type''
                          = Some ''application/dns-message''"
    by blast
  from t post have oth: "\<forall>n. headerName n \<noteq> ''content-type'' \<and> headerName n \<noteq> ''user-agent'' \<longrightarrow>
               headers_get (up_headers (translate ?req ?p)) n = headers_get (headers ?req) n"
    by blast
  from t post b have bd: "up_body (translate ?req ?p) = Some ''msg''"
    by blast
  from oth [rule_format, of "''X-Trace''"] x
  have xt: "headers_get (up_headers (translate ?req ?p)) ''X-Trace'' = Some ''7''"
    by (simp add: headers_get_def)
  have url: "url ?p @ search ?req = ''https://a.example/dns-query?ct=1''"
    by (simp add: exampleRegistry_def)
  from f tu ct xt bd url show ?thesis
    by (simp add: fresh_def postRequest_def)
qed

lemma primaryResponse_fields:
  "status (primaryResponse env resp) = status resp"
  "statusText (primaryResponse env resp) = statusText resp"
  "resp_body (primaryResponse env resp) = resp_body resp"
  by (simp_all add: primaryResponse_def Let_def)

lemma primaryResponse_headers:
  "headers_get (resp_headers (primaryResponse env resp)) n =
     (if headerName n = ''expires'' then Some (toUTCString env (dateNow env + 300 * 1000))
      else if headerName n = ''cache-control'' then Some ''public, max-age=300''
      else if headerName n = ''access-control-allow-headers'' then Some ''Content-Type, Accept''
      else if headerName n = ''access-control-allow-methods'' then Some ''GET, POST, OPTIONS''
      else if headerName n = ''access-control-allow-origin'' then Some ''*''
      else headers_get (resp_headers resp) n)"
  by (simp add: primaryResponse_def Let_def headers_get_set headerName_literals
      decimal_CACHE_TTL) (simp add: CACHE_TTL_def)

lemma fallbackResponse_fields:
  "status (fallbackResponse resp) = status resp"
  "statusText (fallbackResponse resp) = statusText resp"
  "resp_body (fallbackResponse resp) = resp_body resp"
  by (simp_all add: fallbackResponse_def Let_def)

lemma fallbackResponse_headers:
  "headers_get (resp_headers (fallbackResponse resp)) n =
     (if headerName n = ''cache-control'' then Some ''public, max-age=300''
      else if headerName n = ''access-control-allow-headers'' then Some ''Content-Type, Accept''
      else if headerName n = ''access-control-allow-methods'' then Some ''GET, POST, OPTIONS''
      else if headerName n = ''access-control-allow-origin'' then Some ''*''
      else headers_get (resp_headers resp) n)"
  by (simp add: fallbackResponse_def Let_def headers_get_set headerName_literals
      decimal_CACHE_TTL)

lemma primaryResponse_forced: "carriesForced (resp_headers (primaryResponse env resp))"
  by (simp add: carriesForced_def primaryResponse_headers headerName_literals)

lemma fallbackResponse_forced: "carriesForced (resp_headers (fallbackResponse resp))"
  by (simp add: carriesForced_def fallbackResponse_headers headerName_literals)

lemma fallbackResponse_ok: "ok (fallbackResponse resp) = ok resp"
  by (simp add: ok_def fallbackResponse_fields)

lemma fetch_Inr:
  "fetch env r w = (Inr resp, w') \<Longrightarrow>
     fetched w' = fetched w @ [r] \<and> network env (length (fetched w)) r = Responds resp"
  by (auto simp: fetch_def split: fetch_outcome.splits)

lemma primaryAttempt_Inr:
  assumes "primaryAttempt env req sel w = (Inr out, w')"
  shows "\<exists>r resp. fetched w' = fetched w @ [r]
           \<and> network env (length (fetched w)) r = Responds resp
           \<and> out = primaryResponse env resp"
proof (cases sel)
  case None
  with assms show ?thesis by (simp add: primaryAttempt_def)
next
  case (Some sp)
  with assms show ?thesis
    by (auto simp: primaryAttempt_def Let_def arrayBuffer_def
        split: if_splits option.splits sum.splits prod.splits dest!: fetch_Inr)
qed

lemma fallbackAttempt_Inr:
  assumes "fallbackAttempt env req p w = (Inr resp, w')"
  shows "\<exists>r. fetched w' = fetched w @ [r]
           \<and> network env (length (fetched w)) r = Responds resp"
  using assms
  by (auto simp: fallbackAttempt_def Let_def arrayBuffer_def
      split: if_splits option.splits sum.splits prod.splits dest!: fetch_Inr)

lemma fallbackLoop_result:
  "fallbackLoop env req cands w = (out, w') \<Longrightarrow>
     out = textResponse ''All DNS providers are unavailable'' 503
     \<or> (\<exists>resp log r. ok resp \<and> out = fallbackResponse resp \<and> fetched w' = log @ [r]
           \<and> network env (length log) r = Responds resp)"
proof (induction cands arbitrary: w)
  case Nil
  then show ?case by simp
next
  case (Cons p rest)
  obtain res w1 where a: "fallbackAttempt env req p w = (res, w1)"
    by (cases "fallbackAttempt env req p w")
  show ?case
  proof (cases res)
    case (Inl e)
    with a Cons.prems have "fallbackLoop env req rest w1 = (out, w')" by simp
    then show ?thesis by (rule Cons.IH)
  next
    case (Inr resp)
    show ?thesis
    proof (cases "ok resp")
      case True
      with a Inr Cons.prems have o: "out = fallbackResponse resp" and w: "w' = w1"
        by simp_all
      from a Inr fallbackAttempt_Inr obtain r where
        "fetched w1 = fetched w @ [r]" "network env (length (fetched w)) r = Responds resp"
        by blast
      with o w True show ?thesis by blast
    next
      case False
      with a Inr Cons.prems have "fallbackLoop env req rest w1 = (out, w')" by simp
      then show ?thesis by (rule Cons.IH)
    qed
  qed
qed

text \<open>
  Claim C9. A response returned by the primary attempt, and a successful response
  returned by the fallback loop, has the status, status text and body of the upstream
  response it relays and carries the four forced headers; every other header is the
  upstream's. The primary attempt also sets \<^verbatim>\<open>Expires\<close> to the clock plus 300
  seconds; the fallback loop does not set it, so there it is whatever the upstream sent.
\<close>

theorem relayed_response_contract:
  "(primaryAttempt env req sel w = (Inr out, w') \<longrightarrow>
      (\<exists>r resp. fetched w' = fetched w @ [r]
         \<and> network env (length (fetched w)) r = Responds resp
         \<and> status out = status resp \<and> statusText out = statusText resp
         \<and> resp_body out = resp_body resp
         \<and> carriesForced (resp_headers out)
         \<and> headers_get (resp_headers out) ''Expires''
              = Some (toUTCString env (dateNow env + 300 * 1000))
         \<and> (\<forall>n. headerName n \<notin> set forcedNames \<and> headerName n \<noteq> ''expires'' \<longrightarrow>
               headers_get (resp_headers out) n = headers_get (resp_headers resp) n)))
   \<and> (fallbackLoop env req cands w = (out, w') \<and> ok out \<longrightarrow>
      (\<exists>log r resp. fetched w' = log @ [r]
         \<and> network env (length log) r = Responds resp \<and> ok resp
         \<and> status out = status resp \<and> statusText out = statusText resp
         \<and> resp_body out = resp_body resp
         \<and> carriesForced (resp_headers out)
         \<and> headers_get (resp_headers out) ''Expires'' = headers_get (resp_headers resp) ''Expires''
         \<and> (\<forall>n. headerName n \<notin> set forcedNames \<longrightarrow>
               headers_get (resp_headers out) n = headers_get (resp_headers resp) n)))"
proof (intro conjI impI)
  assume "primaryAttempt env req sel w = (Inr out, w')"
  from primaryAttempt_Inr [OF this] obtain r resp where r: "fetched w' = fetched w @ [r]"
    "network env (length (fetched w)) r = Responds resp" "out = primaryResponse env resp"
    by blast
  have "status out = status resp \<and> statusText out = statusText resp
         \<and> resp_body out = resp_body resp
         \<and> carriesForced (resp_headers out)
         \<and> headers_get (resp_headers out) ''Expires''
              = Some (toUTCString env (dateNow env + 300 * 1000))
         \<and> (\<forall>n. headerName n \<notin> set forcedNames \<and> headerName n \<noteq> ''expires'' \<longrightarrow>
               headers_get (resp_headers out) n = headers_get (resp_headers resp) n)"
    by (simp add: r(3) primaryResponse_fields primaryResponse_forced primaryResponse_headers
        headerName_literals forcedNames_def)
  with r(1,2) show "\<exists>r resp. fetched w' = fetched w @ [r]
         \<and> network env (length (fetched w)) r = Responds resp
         \<and> status out = status resp \<and> statusText out = statusText resp
         \<and> resp_body out = resp_body resp
         \<and> carriesForced (resp_headers out)
         \<and> headers_get (resp_headers out) ''Expires''
              = Some (toUTCString env (dateNow env + 300 * 1000))
         \<and> (\<forall>n. headerName n \<notin> set forcedNames \<and> headerName n \<noteq> ''expires'' \<longrightarrow>
               headers_get (resp_headers out) n = headers_get (resp_headers resp) n)"
    by blast
next
  assume h: "fallbackLoop env req cands w = (out, w') \<and> ok out"
  have "\<not> ok (textResponse ''All DNS providers are unavailable'' 503)"
    by (simp add: ok_def textResponse_def)
  with h fallbackLoop_result [of env req cands w out w'] obtain resp log r where
    r: "ok resp" "out = fallbackResponse resp" "fetched w' = log @ [r]"
       "network env (length log) r = Responds resp"
    by blast
  have "status out = status resp \<and> statusText out = statusText resp
         \<and> resp_body out = resp_body resp
         \<and> carriesForced (resp_headers out)
         \<and> headers_get (resp_headers out) ''Expires'' = headers_get (resp_headers resp) ''Expires''
         \<and> (\<forall>n. headerName n \<notin> set forcedNames \<longrightarrow>
               headers_get (resp_headers out) n = headers_get (resp_headers resp) n)"
    by (simp add: r(2) fallbackResponse_fields fallbackResponse_forced fallbackResponse_headers
        headerName_literals forcedNames_def)
  with r(1,3,4) show "\<exists>log r resp. fetched w' = log @ [r]
         \<and> network env (length log) r = Responds resp \<and> ok resp
         \<and> status out = status resp \<and> statusText out = statusText resp
         \<and> resp_body out = resp_body resp
         \<and> carriesForced (resp_headers out)
         \<and> headers_get (resp_headers out) ''Expires'' = headers_get (resp_headers resp) ''Expires''
         \<and> (\<forall>n. headerName n \<notin> set forcedNames \<longrightarrow>
               headers_get (resp_headers out) n = headers_get (resp_headers resp) n)"
    by blast
qed

section \<open>Failover: the claims\<close>

lemma scripted_network:
  "network (scripted os) k r = (if k < length os then os ! k else Rejects)"
  by (simp add: scripted_def)

lemma scripted_fields:
  "scaledRandom (scripted os) = (\<lambda>t. 0)" "dateNow (scripted os) = 0"
  "toUTCString (scripted os) t = ''Thu, 01 Jan 1970 00:05:00 GMT''"
  by (simp_all add: scripted_def quietPlatform_def)

lemma getRequest_fields:
  "http_method (getRequest q) = ''GET''" "pathname (getRequest q) = ''/dns-query''"
  "search (getRequest q) = q" "body (getRequest q) = None" "rereadable (getRequest q)"
  by (simp_all add: getRequest_def rereadable_def)


lemma status_upstreamAnswer: "status (upstreamAnswer st) = st"
  by (simp add: upstreamAnswer_def)

lemma selectProvider_zero_example:
  "selectProvider (\<lambda>t. 0) exampleRegistry = Some (exampleRegistry ! 0)"
  by (simp add: selectProvider_def exampleRegistry_def)

lemma exampleRegistry_fallback:
  "fallbackProviders exampleRegistry (exampleRegistry ! 0) =
     [exampleRegistry ! 1, exampleRegistry ! 2, exampleRegistry ! 3]"
  by (simp add: fallbackProviders_def exampleRegistry_def)

lemma exampleRegistry_urls:
  "url (exampleRegistry ! 0) = ''https://a.example/dns-query''"
  "url (exampleRegistry ! 1) = ''https://b.example/dns-query''"
  "url (exampleRegistry ! 2) = ''https://c.example/dns-query''"
  "url (exampleRegistry ! 3) = ''https://d.example/dns-query''"
  by (simp_all add: exampleRegistry_def)

theorem relayed_response_contract_witness:
  "primaryAttempt (scripted [Responds (upstreamAnswer 404)]) (getRequest ''?dns=AAAB'')
       (Some (exampleRegistry ! 0)) fresh
     = (Inr (primaryResponse (scripted [Responds (upstreamAnswer 404)]) (upstreamAnswer 404)),
        fresh\<lparr>fetched := [translate (getRequest ''?dns=AAAB'') (exampleRegistry ! 0)]\<rparr>)
   \<and> status (primaryResponse (scripted [Responds (upstreamAnswer 404)]) (upstreamAnswer 404)) = 404
   \<and> headers_get (resp_headers (primaryResponse (scripted [Responds (upstreamAnswer 404)])
         (upstreamAnswer 404))) ''Expires'' = Some ''Thu, 01 Jan 1970 00:05:00 GMT''
   \<and> carriesForced (resp_headers (primaryResponse (scripted [Responds (upstreamAnswer 404)])
         (upstreamAnswer 404)))
   \<and> fallbackLoop (scripted [Responds (upstreamAnswer 500), Responds (upstreamAnswer 200)])
        (getRequest ''?dns=AAAB'') [exampleRegistry ! 1, exampleRegistry ! 2, exampleRegistry ! 3] fresh
     = (fallbackResponse (upstreamAnswer 200),
        fresh\<lparr>fetched := [translate (getRequest ''?dns=AAAB'') (exampleRegistry ! 1),
                            translate (getRequest ''?dns=AAAB'') (exampleRegistry ! 2)]\<rparr>)
   \<and> ok (fallbackResponse (upstreamAnswer 200))
   \<and> status (fallbackResponse (upstreamAnswer 200)) = 200
   \<and> resp_body (fallbackResponse (upstreamAnswer 200)) = Some ''answer''
   \<and> carriesForced (resp_headers (fallbackResponse (upstreamAnswer 200)))
   \<and> headers_get (resp_headers (fallbackResponse (upstreamAnswer 200))) ''Expires'' = None"
proof -
  let ?e1 = "scripted [Responds (upstreamAnswer 404)]"
  let ?e2 = "scripted [Responds (upstreamAnswer 500), Responds (upstreamAnswer 200)]"
  let ?req = "getRequest ''?dns=AAAB''"
  let ?cands = "[exampleRegistry ! 1, exampleRegistry ! 2, exampleRegistry ! 3]"
  let ?out1 = "primaryResponse ?e1 (upstreamAnswer 404)"
  let ?w1 = "fresh\<lparr>fetched := [translate ?req (exampleRegistry ! 0)]\<rparr>"
  let ?out2 = "fallbackResponse (upstreamAnswer 200)"
  let ?w2 = "fresh\<lparr>fetched := [translate ?req (exampleRegistry ! 1),
                                   translate ?req (exampleRegistry ! 2)]\<rparr>"
  have p: "primaryAttempt ?e1 ?req (Some (exampleRegistry ! 0)) fresh = (Inr ?out1, ?w1)"
    by (simp add: primaryAttempt_readable getRequest_fields scripted_network fresh_def
        validStatus_def status_upstreamAnswer)
  have s5: "\<not> ok (upstreamAnswer 500)" and s2: "ok (upstreamAnswer 200)"
    by (simp_all add: ok_def upstreamAnswer_def)
  have f: "fallbackLoop ?e2 ?req ?cands fresh = (?out2, ?w2)"
    by (simp add: fallbackAttempt_readable getRequest_fields scripted_network fresh_def s5 s2)
  have o: "ok ?out2"
    by (simp add: fallbackResponse_ok s2)
  note c1 = relayed_response_contract [THEN conjunct1, rule_format, OF p]
  note c2 = relayed_response_contract [THEN conjunct2, rule_format, OF conjI [OF f o]]
  from c1 have a: "status ?out1 = 404
     \<and> headers_get (resp_headers ?out1) ''Expires'' = Some ''Thu, 01 Jan 1970 00:05:00 GMT''
     \<and> carriesForced (resp_headers ?out1)"
    by (auto simp: fresh_def scripted_network scripted_fields upstreamAnswer_def)
  from c2 have b: "status ?out2 = 200 \<and> resp_body ?out2 = Some ''answer''
     \<and> carriesForced (resp_headers ?out2)
     \<and> headers_get (resp_headers ?out2) ''Expires'' = None"
    by (auto simp: fresh_def scripted_network upstreamAnswer_def headers_get_def)
  from p f o a b show ?thesis
    by simp
qed


lemma handleRequest_dns:
  assumes "http_method req = ''GET'' \<or> http_method req = ''POST''"
    and "pathname req = ''/dns-query''"
    and "http_method req = ''GET'' \<longrightarrow> searchParams_has (search req) ''dns''"
  shows "handleRequest registry env req w =
     (case primaryAttempt env req (selectProvider (scaledRandom env) registry)
             (w\<lparr>draws := Suc (draws w)\<rparr>) of
        (Inr resp, w') \<Rightarrow> (Inr resp, w')
      | (Inl e, w') \<Rightarrow>
          tryFallbackProviders registry env req (selectProvider (scaledRandom env) registry) w')"
  using assms by (auto simp: handleRequest_def Let_def)

lemma handleRequest_primary_rejects:
  assumes "http_method req = ''GET'' \<or> http_method req = ''POST''"
    and "pathname req = ''/dns-query''"
    and "http_method req = ''GET'' \<longrightarrow> searchParams_has (search req) ''dns''"
    and "\<not> bodyUsed w"
    and "selectProvider (scaledRandom env) registry = Some sp"
    and "network env (length (fetched w)) (translate req sp) = Rejects"
  shows "handleRequest registry env req w =
     tryFallbackProviders registry env req (Some sp)
       (w\<lparr>draws := Suc (draws w), bodyUsed := \<not> rereadable req,
          fetched := fetched w @ [translate req sp]\<rparr>)"
proof -
  let ?w = "w\<lparr>draws := Suc (draws w)\<rparr>"
  have "\<not> bodyUsed ?w \<or> rereadable req" using assms(4) by simp
  from primaryAttempt_readable [OF this, of env sp] assms(4,6)
  have "primaryAttempt env req (Some sp) ?w =
          (Inl TransportError, w\<lparr>draws := Suc (draws w), bodyUsed := \<not> rereadable req,
             fetched := fetched w @ [translate req sp]\<rparr>)"
    by simp
  then show ?thesis
    by (simp add: handleRequest_dns [OF assms(1-3)] assms(5))
qed

lemma handleRequest_primary_responds:
  assumes "http_method req = ''GET'' \<or> http_method req = ''POST''"
    and "pathname req = ''/dns-query''"
    and "http_method req = ''GET'' \<longrightarrow> searchParams_has (search req) ''dns''"
    and "\<not> bodyUsed w"
    and "selectProvider (scaledRandom env) registry = Some sp"
    and "network env (length (fetched w)) (translate req sp) = Responds resp"
    and "validStatus (status resp)"
  shows "handleRequest registry env req w =
     (Inr (primaryResponse env resp),
      w\<lparr>draws := Suc (draws w), bodyUsed := \<not> rereadable req,
        fetched := fetched w @ [translate req sp]\<rparr>)"
proof -
  let ?w = "w\<lparr>draws := Suc (draws w)\<rparr>"
  have "\<not> bodyUsed ?w \<or> rereadable req" using assms(4) by simp
  from primaryAttempt_readable [OF this, of env sp] assms(4,6,7)
  have "primaryAttempt env req (Some sp) ?w =
          (Inr (primaryResponse env resp), w\<lparr>draws := Suc (draws w), bodyUsed := \<not> rereadable req,
             fetched := fetched w @ [translate req sp]\<rparr>)"
    by simp
  then show ?thesis
    by (simp add: handleRequest_dns [OF assms(1-3)] assms(5))
qed

lemma primaryAttempt_status_refused:
  assumes "\<not> bodyUsed w"
    and "network env (length (fetched w)) (translate req sp) = Responds resp"
    and "\<not> validStatus (status resp)"
  shows "primaryAttempt env req (Some sp) (w\<lparr>draws := Suc (draws w)\<rparr>) =
          (Inl RangeError, w\<lparr>draws := Suc (draws w), bodyUsed := \<not> rereadable req,
             fetched := fetched w @ [translate req sp]\<rparr>)"
proof -
  let ?w = "w\<lparr>draws := Suc (draws w)\<rparr>"
  have "\<not> bodyUsed ?w \<or> rereadable req" using assms(1) by simp
  from primaryAttempt_readable [OF this, of env sp] assms show ?thesis
    by simp
qed

lemma handleRequest_primary_status_refused:
  assumes "http_method req = ''GET'' \<or> http_method req = ''POST''"
    and "pathname req = ''/dns-query''"
    and "http_method req = ''GET'' \<longrightarrow> searchParams_has (search req) ''dns''"
    and "\<not> bodyUsed w"
    and "selectProvider (scaledRandom env) registry = Some sp"
    and "network env (length (fetched w)) (translate req sp) = Responds resp"
    and "\<not> validStatus (status resp)"
  shows "handleRequest registry env req w =
     tryFallbackProviders registry env req (Some sp)
       (w\<lparr>draws := Suc (draws w), bodyUsed := \<not> rereadable req,
          fetched := fetched w @ [translate req sp]\<rparr>)"
  by (simp add: handleRequest_dns [OF assms(1-3)] assms(5)
      primaryAttempt_status_refused [OF assms(4,6,7)])

lemma failsOver_outcome:
  assumes "\<not> bodyUsed w" and "selectProvider (scaledRandom env) registry = Some sp"
  shows "failsOver registry env req w =
     (case network env (length (fetched w)) (translate req sp) of
        Rejects \<Rightarrow> True
      | Responds resp \<Rightarrow> \<not> validStatus (status resp))"
proof -
  let ?w = "w\<lparr>draws := Suc (draws w)\<rparr>"
  have "\<not> bodyUsed ?w \<or> rereadable req" using assms(1) by simp
  from primaryAttempt_readable [OF this, of env sp] show ?thesis
    by (simp add: failsOver_def assms(2) Let_def split: fetch_outcome.split)
qed

text \<open>
  On an empty registry no provider is selected: the primary attempt throws on reading
  the url of \<^verbatim>\<open>undefined\<close>, the callback of \<^verbatim>\<open>filter\<close> is never called, and the handler
  returns the 503 without any upstream call. On another registry a failed provider that
  is \<^verbatim>\<open>undefined\<close> makes \<^verbatim>\<open>tryFallbackProviders\<close> throw.
\<close>

lemma handleRequest_empty_registry:
  assumes "http_method req = ''GET'' \<or> http_method req = ''POST''"
    and "pathname req = ''/dns-query''"
    and "http_method req = ''GET'' \<longrightarrow> searchParams_has (search req) ''dns''"
  shows "handleRequest [] env req w =
     (Inr (textResponse ''All DNS providers are unavailable'' 503), w\<lparr>draws := Suc (draws w)\<rparr>)"
  by (simp add: handleRequest_dns [OF assms] selectProvider_def firstProvider_def
      primaryAttempt_def tryFallbackProviders_def)

lemma tryFallbackProviders_undefined:
  "registry \<noteq> [] \<Longrightarrow>
     tryFallbackProviders registry env req None w = (Inl UndefinedProvider, w)"
  by (simp add: tryFallbackProviders_def)

lemma has_dns_example: "searchParams_has ''?dns=AAAB'' ''dns''"
  by code_simp

lemma ok_answers: "\<not> ok (upstreamAnswer 500)" "ok (upstreamAnswer 200)"
  by (simp_all add: ok_def upstreamAnswer_def)

lemma attemptFails_readable:
  assumes "\<not> bodyUsed w \<or> rereadable req"
  shows "attemptFails env req p w =
     (case network env (length (fetched w)) (translate req p) of
        Rejects \<Rightarrow> True | Responds resp \<Rightarrow> \<not> ok resp)"
  by (simp add: attemptFails_def fallbackAttempt_readable [OF assms] Let_def
      split: fetch_outcome.split)

lemma afterAttempt_readable:
  assumes "\<not> bodyUsed w \<or> rereadable req"
  shows "afterAttempt env req w p =
     w\<lparr>bodyUsed := (bodyUsed w \<or> \<not> rereadable req), fetched := fetched w @ [translate req p]\<rparr>"
  by (simp add: afterAttempt_def fallbackAttempt_readable [OF assms] Let_def
      split: fetch_outcome.split)

text \<open>
  Claim C1, as the code has it. The claim says that the handler fails over only when
  the primary attempt throws a transport error, and that a primary response with a
  status outside 2xx is relayed. The \<^verbatim>\<open>catch\<close> takes every throw of the \<^verbatim>\<open>try\<close>
  block: below, the primary upstream answers with status 999, \<^verbatim>\<open>new Response\<close> throws,
  and the handler fails over and returns the answer of the next provider.
\<close>

theorem primary_status_999_fails_over:
  "network (scripted [Responds (upstreamAnswer 999), Responds (upstreamAnswer 200)]) 0
       (translate (getRequest ''?dns=AAAB'') (exampleRegistry ! 0))
     = Responds (upstreamAnswer 999)
   \<and> status (upstreamAnswer 999) = 999
   \<and> failsOver exampleRegistry
        (scripted [Responds (upstreamAnswer 999), Responds (upstreamAnswer 200)])
        (getRequest ''?dns=AAAB'') fresh
   \<and> handleRequest exampleRegistry
        (scripted [Responds (upstreamAnswer 999), Responds (upstreamAnswer 200)])
        (getRequest ''?dns=AAAB'') fresh
      = (Inr (fallbackResponse (upstreamAnswer 200)),
         \<lparr>bodyUsed = False, draws = 1,
          fetched = [translate (getRequest ''?dns=AAAB'') (exampleRegistry ! 0),
                     translate (getRequest ''?dns=AAAB'') (exampleRegistry ! 1)]\<rparr>)
   \<and> status (fallbackResponse (upstreamAnswer 200)) = 200"
proof -
  let ?e = "scripted [Responds (upstreamAnswer 999), Responds (upstreamAnswer 200)]"
  let ?req = "getRequest ''?dns=AAAB''"
  have m: "http_method ?req = ''GET'' \<or> http_method ?req = ''POST''"
    and p: "pathname ?req = ''/dns-query''"
    and q: "http_method ?req = ''GET'' \<longrightarrow> searchParams_has (search ?req) ''dns''"
    by (simp_all add: getRequest_fields has_dns_example)
  have u: "\<not> bodyUsed fresh" by (simp add: fresh_def)
  have s: "selectProvider (scaledRandom ?e) exampleRegistry = Some (exampleRegistry ! 0)"
    by (simp add: scripted_fields selectProvider_zero_example)
  have n: "network ?e (length (fetched fresh)) (translate ?req (exampleRegistry ! 0))
             = Responds (upstreamAnswer 999)"
    by (simp add: scripted_network fresh_def)
  have v: "\<not> validStatus (status (upstreamAnswer 999))"
    by (simp add: validStatus_def status_upstreamAnswer)
  have rd: "\<And>v. \<not> bodyUsed v \<or> rereadable ?req"
    by (simp add: getRequest_fields)
  have f: "failsOver exampleRegistry ?e ?req fresh"
    by (simp add: failsOver_outcome [OF u s] n v)
  have "tryFallbackProviders exampleRegistry ?e ?req (Some (exampleRegistry ! 0))
          (fresh\<lparr>draws := Suc (draws fresh), bodyUsed := \<not> rereadable ?req,
             fetched := fetched fresh @ [translate ?req (exampleRegistry ! 0)]\<rparr>)
        = (Inr (fallbackResponse (upstreamAnswer 200)),
           \<lparr>bodyUsed = False, draws = 1,
            fetched = [translate ?req (exampleRegistry ! 0), translate ?req (exampleRegistry ! 1)]\<rparr>)"
    by (simp add: tryFallbackProviders_def exampleRegistry_fallback
        fallbackAttempt_readable [OF rd] scripted_network ok_answers getRequest_fields fresh_def)
  with handleRequest_primary_status_refused [OF m p q u s n v]
  have h: "handleRequest exampleRegistry ?e ?req fresh
        = (Inr (fallbackResponse (upstreamAnswer 200)),
           \<lparr>bodyUsed = False, draws = 1,
            fetched = [translate ?req (exampleRegistry ! 0), translate ?req (exampleRegistry ! 1)]\<rparr>)"
    by simp
  from n f h show ?thesis
    by (simp add: fresh_def fallbackResponse_fields status_upstreamAnswer)
qed

text \<open>
  Claim C1, amended. For a GET or POST request to \<^verbatim>\<open>/dns-query\<close> that passes the
  checks, the handler goes to the fallback loop exactly when the \<^verbatim>\<open>try\<close> block of the
  primary attempt throws: the \<^verbatim>\<open>fetch\<close> rejects (the transport error), or the upstream
  answers with a status outside 200..599, which \<^verbatim>\<open>new Response\<close> refuses. When the
  upstream answers with a status within 200..599, 2xx or not, there is no failover: the
  handler returns that response with its status, status text and body and the forced
  headers, after a single upstream call.
\<close>

theorem failover_iff_primary_attempt_throws:
  assumes "http_method req = ''GET'' \<or> http_method req = ''POST''"
    and "pathname req = ''/dns-query''"
    and "http_method req = ''GET'' \<longrightarrow> searchParams_has (search req) ''dns''"
    and "\<not> bodyUsed w"
    and "selectProvider (scaledRandom env) registry = Some sp"
  shows "(failsOver registry env req w
            \<longleftrightarrow> network env (length (fetched w)) (translate req sp) = Rejects
               \<or> (\<exists>resp. network env (length (fetched w)) (translate req sp) = Responds resp
                     \<and> \<not> (200 \<le> status resp \<and> status resp \<le> 599)))
    \<and> (network env (length (fetched w)) (translate req sp) = Rejects \<longrightarrow>
         fst (primaryAttempt env req (Some sp) (w\<lparr>draws := Suc (draws w)\<rparr>)) = Inl TransportError
         \<and> handleRequest registry env req w =
             tryFallbackProviders registry env req (Some sp)
               (w\<lparr>draws := Suc (draws w), bodyUsed := \<not> rereadable req,
                  fetched := fetched w @ [translate req sp]\<rparr>))
    \<and> (\<forall>resp. network env (length (fetched w)) (translate req sp) = Responds resp
           \<and> \<not> (200 \<le> status resp \<and> status resp \<le> 599) \<longrightarrow>
         fst (primaryAttempt env req (Some sp) (w\<lparr>draws := Suc (draws w)\<rparr>)) = Inl RangeError
         \<and> handleRequest registry env req w =
             tryFallbackProviders registry env req (Some sp)
               (w\<lparr>draws := Suc (draws w), bodyUsed := \<not> rereadable req,
                  fetched := fetched w @ [translate req sp]\<rparr>))
    \<and> (\<forall>resp. network env (length (fetched w)) (translate req sp) = Responds resp
           \<and> 200 \<le> status resp \<and> status resp \<le> 599 \<longrightarrow>
         \<not> failsOver registry env req w
         \<and> handleRequest registry env req w =
             (Inr (primaryResponse env resp),
              w\<lparr>draws := Suc (draws w), bodyUsed := \<not> rereadable req,
                fetched := fetched w @ [translate req sp]\<rparr>)
         \<and> status (primaryResponse env resp) = status resp
         \<and> statusText (primaryResponse env resp) = statusText resp
         \<and> resp_body (primaryResponse env resp) = resp_body resp
         \<and> carriesForced (resp_headers (primaryResponse env resp)))"
proof (intro conjI allI impI)
  show "failsOver registry env req w
          \<longleftrightarrow> network env (length (fetched w)) (translate req sp) = Rejects
               \<or> (\<exists>resp. network env (length (fetched w)) (translate req sp) = Responds resp
                     \<and> \<not> (200 \<le> status resp \<and> status resp \<le> 599))"
    by (cases "network env (length (fetched w)) (translate req sp)")
       (simp_all add: failsOver_outcome [OF assms(4,5)] validStatus_def)
next
  assume r: "network env (length (fetched w)) (translate req sp) = Rejects"
  have "\<not> bodyUsed (w\<lparr>draws := Suc (draws w)\<rparr>) \<or> rereadable req"
    using assms(4) by simp
  from primaryAttempt_readable [OF this, of env sp] r
  show "fst (primaryAttempt env req (Some sp) (w\<lparr>draws := Suc (draws w)\<rparr>)) = Inl TransportError"
    by simp
  show "handleRequest registry env req w =
             tryFallbackProviders registry env req (Some sp)
               (w\<lparr>draws := Suc (draws w), bodyUsed := \<not> rereadable req,
                  fetched := fetched w @ [translate req sp]\<rparr>)"
    by (rule handleRequest_primary_rejects [OF assms r])
next
  fix resp
  assume "network env (length (fetched w)) (translate req sp) = Responds resp
           \<and> \<not> (200 \<le> status resp \<and> status resp \<le> 599)"
  then have r: "network env (length (fetched w)) (translate req sp) = Responds resp"
    and v: "\<not> validStatus (status resp)"
    by (simp_all add: validStatus_def)
  show "fst (primaryAttempt env req (Some sp) (w\<lparr>draws := Suc (draws w)\<rparr>)) = Inl RangeError"
    by (simp add: primaryAttempt_status_refused [OF assms(4) r v])
  show "handleRequest registry env req w =
             tryFallbackProviders registry env req (Some sp)
               (w\<lparr>draws := Suc (draws w), bodyUsed := \<not> rereadable req,
                  fetched := fetched w @ [translate req sp]\<rparr>)"
    by (rule handleRequest_primary_status_refused [OF assms r v])
next
  fix resp
  assume "network env (length (fetched w)) (translate req sp) = Responds resp
           \<and> 200 \<le> status resp \<and> status resp \<le> 599"
  then have r: "network env (length (fetched w)) (translate req sp) = Responds resp"
    and v: "validStatus (status resp)"
    by (simp_all add: validStatus_def)
  from r v show "\<not> failsOver registry env req w"
    by (simp add: failsOver_outcome [OF assms(4,5)])
  show "handleRequest registry env req w =
             (Inr (primaryResponse env resp),
              w\<lparr>draws := Suc (draws w), bodyUsed := \<not> rereadable req,
                fetched := fetched w @ [translate req sp]\<rparr>)"
    by (rule handleRequest_primary_responds [OF assms r v])
  show "status (primaryResponse env resp) = status resp"
    and "statusText (primaryResponse env resp) = statusText resp"
    and "resp_body (primaryResponse env resp) = resp_body resp"
    by (simp_all add: primaryResponse_fields)
  show "carriesForced (resp_headers (primaryResponse env resp))"
    by (rule primaryResponse_forced)
qed

theorem failover_iff_primary_attempt_throws_witness:
  "\<not> failsOver exampleRegistry (scripted [Responds (upstreamAnswer 500), Responds (upstreamAnswer 200)])
        (getRequest ''?dns=AAAB'') fresh
   \<and> handleRequest exampleRegistry (scripted [Responds (upstreamAnswer 500), Responds (upstreamAnswer 200)])
        (getRequest ''?dns=AAAB'') fresh
      = (Inr (primaryResponse (scripted [Responds (upstreamAnswer 500), Responds (upstreamAnswer 200)])
                (upstreamAnswer 500)),
         \<lparr>bodyUsed = False, draws = 1,
          fetched = [translate (getRequest ''?dns=AAAB'') (exampleRegistry ! 0)]\<rparr>)
   \<and> status (primaryResponse (scripted [Responds (upstreamAnswer 500), Responds (upstreamAnswer 200)])
                (upstreamAnswer 500)) = 500
   \<and> failsOver exampleRegistry (scripted [Rejects, Responds (upstreamAnswer 200)])
        (getRequest ''?dns=AAAB'') fresh
   \<and> failsOver exampleRegistry (scripted [Responds (upstreamAnswer 600), Responds (upstreamAnswer 200)])
        (getRequest ''?dns=AAAB'') fresh"
proof -
  let ?e = "scripted [Responds (upstreamAnswer 500), Responds (upstreamAnswer 200)]"
  let ?e' = "scripted [Rejects, Responds (upstreamAnswer 200)]"
  let ?e'' = "scripted [Responds (upstreamAnswer 600), Responds (upstreamAnswer 200)]"
  let ?req = "getRequest ''?dns=AAAB''"
  have m: "http_method ?req = ''GET'' \<or> http_method ?req = ''POST''"
    and p: "pathname ?req = ''/dns-query''"
    and q: "http_method ?req = ''GET'' \<longrightarrow> searchParams_has (search ?req) ''dns''"
    by (simp_all add: getRequest_fields has_dns_example)
  have u: "\<not> bodyUsed fresh" by (simp add: fresh_def)
  have s: "selectProvider (scaledRandom ?e) exampleRegistry = Some (exampleRegistry ! 0)"
    and s': "selectProvider (scaledRandom ?e') exampleRegistry = Some (exampleRegistry ! 0)"
    and s'': "selectProvider (scaledRandom ?e'') exampleRegistry = Some (exampleRegistry ! 0)"
    by (simp_all add: scripted_fields selectProvider_zero_example)
  have n: "network ?e (length (fetched fresh)) (translate ?req (exampleRegistry ! 0))
             = Responds (upstreamAnswer 500)"
    and n': "network ?e' (length (fetched fresh)) (translate ?req (exampleRegistry ! 0)) = Rejects"
    and n'': "network ?e'' (length (fetched fresh)) (translate ?req (exampleRegistry ! 0))
             = Responds (upstreamAnswer 600)"
    by (simp_all add: scripted_network fresh_def)
  from failover_iff_primary_attempt_throws [OF m p q u s] n
  have a: "\<not> failsOver exampleRegistry ?e ?req fresh
     \<and> handleRequest exampleRegistry ?e ?req fresh
        = (Inr (primaryResponse ?e (upstreamAnswer 500)),
           \<lparr>bodyUsed = False, draws = 1, fetched = [translate ?req (exampleRegistry ! 0)]\<rparr>)
     \<and> status (primaryResponse ?e (upstreamAnswer 500)) = 500"
    by (simp add: fresh_def getRequest_fields status_upstreamAnswer)
  from failover_iff_primary_attempt_throws [OF m p q u s'] n'
  have b: "failsOver exampleRegistry ?e' ?req fresh"
    by simp
  from failover_iff_primary_attempt_throws [OF m p q u s''] n''
  have c: "failsOver exampleRegistry ?e'' ?req fresh"
    by (simp add: status_upstreamAnswer)
  from a b c show ?thesis by simp
qed

lemma attemptFails_iff:
  "attemptFails env req p w \<longleftrightarrow>
     (\<exists>e. fst (fallbackAttempt env req p w) = Inl e)
     \<or> (\<exists>resp. fst (fallbackAttempt env req p w) = Inr resp \<and> \<not> ok resp)"
  by (cases "fst (fallbackAttempt env req p w)") (simp_all add: attemptFails_def)

lemma attempt_consumed:
  assumes "\<not> rereadable req" and "bodyUsed w"
  shows "fallbackAttempt env req p w = (Inl BodyAlreadyUsed, w)"
    and "attemptFails env req p w" and "afterAttempt env req w p = w"
proof -
  from assms(1) obtain b where "http_method req = ''POST''" "body req = Some b"
    by (auto simp: rereadable_def)
  from fallbackAttempt_consumed [OF this assms(2)]
  show a: "fallbackAttempt env req p w = (Inl BodyAlreadyUsed, w)" .
  from a show "attemptFails env req p w" by (simp add: attemptFails_def)
  from a show "afterAttempt env req w p = w" by (simp add: afterAttempt_def)
qed

lemma fallbackAttempt_ok:
  assumes "\<not> attemptFails env req p w"
  shows "\<exists>resp. fallbackAttempt env req p w = (Inr resp, afterAttempt env req w p) \<and> ok resp
           \<and> network env (length (fetched w)) (translate req p) = Responds resp
           \<and> fetched (afterAttempt env req w p) = fetched w @ [translate req p]"
proof (cases "\<not> bodyUsed w \<or> rereadable req")
  case True
  from assms show ?thesis
    by (simp add: attemptFails_readable [OF True] afterAttempt_readable [OF True]
        fallbackAttempt_readable [OF True] Let_def split: fetch_outcome.splits)
next
  case False
  then have "attemptFails env req p w"
    by (simp add: attempt_consumed)
  with assms show ?thesis by simp
qed

lemma fallbackLoop_skip:
  "attemptFails env req p w \<Longrightarrow>
     fallbackLoop env req (p # rest) w = fallbackLoop env req rest (afterAttempt env req w p)"
  by (cases "fallbackAttempt env req p w")
     (auto simp: attemptFails_def afterAttempt_def split: sum.splits)

lemma fallbackLoop_hit:
  assumes "fallbackAttempt env req p w = (Inr resp, w')" and "ok resp"
  shows "fallbackLoop env req (p # rest) w = (fallbackResponse resp, w')"
  using assms by simp

lemma afterAttempts_Cons:
  "afterAttempts env req w (p # ps) = afterAttempts env req (afterAttempt env req w p) ps"
  by (simp add: afterAttempts_def)

lemma afterAttempts_Nil: "afterAttempts env req w [] = w"
  by (simp add: afterAttempts_def)

lemma fallbackLoop_failed_prefix:
  "allFail env req pre w \<Longrightarrow>
     fallbackLoop env req (pre @ rest) w = fallbackLoop env req rest (afterAttempts env req w pre)"
proof (induction pre arbitrary: w)
  case Nil
  show ?case by (simp add: afterAttempts_Nil)
next
  case (Cons p pre)
  then have f: "attemptFails env req p w" and r: "allFail env req pre (afterAttempt env req w p)"
    by simp_all
  from fallbackLoop_skip [OF f] Cons.IH [OF r] show ?case
    by (simp add: afterAttempts_Cons)
qed

lemma afterAttempts_fetched:
  "rereadable req \<Longrightarrow>
     fetched (afterAttempts env req w ps) = fetched w @ map (translate req) ps"
proof (induction ps arbitrary: w)
  case Nil
  show ?case by (simp add: afterAttempts_Nil)
next
  case (Cons p ps)
  from Cons.prems have "\<not> bodyUsed w \<or> rereadable req" by simp
  from afterAttempt_readable [OF this, of env p] Cons.IH [OF Cons.prems]
  show ?case by (simp add: afterAttempts_Cons)
qed



text \<open>
  The fallback loop where attempts can succeed. When the candidates before \<open>c\<close> all
  fail, each in the world where it is attempted, and the attempt for \<open>c\<close> does not fail,
  \<^verbatim>\<open>tryFallbackProviders\<close> returns a response with the status (a 2xx one), status text
  and body of the upstream's answer to \<open>c\<close> and with the forced headers, and the last
  upstream call is the one for \<open>c\<close>: no later candidate is attempted. With a body that
  can be read again the calls are those for the earlier candidates and \<open>c\<close>, in order.
  One step of the loop skips its candidate exactly when the attempt throws or its
  response is not \<^verbatim>\<open>ok\<close>, and returns otherwise.
\<close>

lemma fallback_first_ok_response:
  assumes "fallbackProviders registry failed = before @ c # later"
    and "allFail env req before w"
    and "\<not> attemptFails env req c (afterAttempts env req w before)"
  shows "\<exists>resp out.
       network env (length (fetched (afterAttempts env req w before))) (translate req c)
         = Responds resp
     \<and> 200 \<le> status resp \<and> status resp \<le> 299
     \<and> tryFallbackProviders registry env req (Some failed) w
         = (Inr out, afterAttempt env req (afterAttempts env req w before) c)
     \<and> status out = status resp \<and> statusText out = statusText resp
     \<and> resp_body out = resp_body resp
     \<and> carriesForced (resp_headers out)
     \<and> (\<forall>n. headerName n \<notin> set forcedNames \<longrightarrow>
           headers_get (resp_headers out) n = headers_get (resp_headers resp) n)
     \<and> fetched (afterAttempt env req (afterAttempts env req w before) c)
         = fetched (afterAttempts env req w before) @ [translate req c]
     \<and> (rereadable req \<longrightarrow>
          fetched (afterAttempt env req (afterAttempts env req w before) c)
            = fetched w @ map (translate req) (before @ [c]))
     \<and> (\<forall>p v rest. fallbackLoop env req (p # rest) v =
           (if (\<exists>e. fst (fallbackAttempt env req p v) = Inl e)
               \<or> (\<exists>r. fst (fallbackAttempt env req p v) = Inr r \<and> \<not> ok r)
            then fallbackLoop env req rest (afterAttempt env req v p)
            else (fallbackResponse (projr (fst (fallbackAttempt env req p v))),
                  afterAttempt env req v p)))"
proof -
  let ?v = "afterAttempts env req w before"
  from fallbackAttempt_ok [OF assms(3)] obtain resp where
    r: "fallbackAttempt env req c ?v = (Inr resp, afterAttempt env req ?v c)" "ok resp"
       "network env (length (fetched ?v)) (translate req c) = Responds resp"
       "fetched (afterAttempt env req ?v c) = fetched ?v @ [translate req c]"
    by blast
  let ?out = "fallbackResponse resp"
  have "fallbackLoop env req (before @ c # later) w = (?out, afterAttempt env req ?v c)"
    by (simp only: fallbackLoop_failed_prefix [OF assms(2)] fallbackLoop_hit [OF r(1,2)])
  then have loop: "tryFallbackProviders registry env req (Some failed) w
                = (Inr ?out, afterAttempt env req ?v c)"
    by (simp add: tryFallbackProviders_def assms(1))
  from r(2) have st: "200 \<le> status resp \<and> status resp \<le> 299"
    by (simp add: ok_def)
  have relay: "status ?out = status resp \<and> statusText ?out = statusText resp
     \<and> resp_body ?out = resp_body resp
     \<and> carriesForced (resp_headers ?out)
     \<and> (\<forall>n. headerName n \<notin> set forcedNames \<longrightarrow>
           headers_get (resp_headers ?out) n = headers_get (resp_headers resp) n)"
    by (simp add: fallbackResponse_fields fallbackResponse_forced fallbackResponse_headers
        forcedNames_def)
  have log: "rereadable req \<longrightarrow>
          fetched (afterAttempt env req ?v c) = fetched w @ map (translate req) (before @ [c])"
    by (simp add: r(4) afterAttempts_fetched)
  have step: "\<forall>p v rest. fallbackLoop env req (p # rest) v =
           (if (\<exists>e. fst (fallbackAttempt env req p v) = Inl e)
               \<or> (\<exists>r. fst (fallbackAttempt env req p v) = Inr r \<and> \<not> ok r)
            then fallbackLoop env req rest (afterAttempt env req v p)
            else (fallbackResponse (projr (fst (fallbackAttempt env req p v))),
                  afterAttempt env req v p))"
  proof (intro allI)
    fix p v rest
    show "fallbackLoop env req (p # rest) v =
           (if (\<exists>e. fst (fallbackAttempt env req p v) = Inl e)
               \<or> (\<exists>r. fst (fallbackAttempt env req p v) = Inr r \<and> \<not> ok r)
            then fallbackLoop env req rest (afterAttempt env req v p)
            else (fallbackResponse (projr (fst (fallbackAttempt env req p v))),
                  afterAttempt env req v p))"
      by (cases "fallbackAttempt env req p v")
         (auto simp: afterAttempt_def split: sum.splits)
  qed
  from r(3,4) st loop relay log step show ?thesis
    by blast
qed






end
